theory Spec2Isabelle
  imports
    Complex_Main
    "HOL-Library.Product_Lexorder"
    "HOL-Library.Multiset"
begin

section \<open>Python values: exceptions and floating-point numbers\<close>

text \<open>
  The exceptions that the modelled code can raise. \<^verbatim>\<open>VersionError\<close> carries which of
  the messages of \<^verbatim>\<open>scripts/ci_version.py\<close> it was raised with.
\<close>

datatype version_error =
    TagMustStartWithV
  | ReleaseTagMalformed
  | PrereleaseBaseMalformed
  | UnsupportedSuffix
  | UnhandledLabel
  | VersionLineNotFound

datatype exn = VersionError version_error | TypeError | ValueError | IndexError | ZeroDivisionError

text \<open>
  A Python \<^verbatim>\<open>float\<close> is an IEEE 754 binary64 number. A finite one is modelled by
  the pair \<open>(m, e)\<close> that denotes \<open>m * 2 ^ e\<close>, kept canonical (\<open>m\<close> odd, or
  \<open>(0, 0)\<close> for zero) so that equal numbers are equal pairs. Every operation
  computes the exact result and rounds it to 53 significant bits, ties to even, as the
  hardware does. Exponents are unbounded: overflow, subnormal numbers, infinities and
  NaN are outside the model, and no computation below comes near them.
\<close>

type_synonym float = "int \<times> int"

function bitlen :: "int \<Rightarrow> nat" where
  "bitlen n = (if n \<le> 0 then 0 else Suc (bitlen (n div 2)))"
  by pat_completeness auto
termination
  by (relation "measure nat") auto

function trailing_zeros :: "int \<Rightarrow> nat" where
  "trailing_zeros n = (if n \<le> 0 \<or> odd n then 0 else Suc (trailing_zeros (n div 2)))"
  by pat_completeness auto
termination
  by (relation "measure nat") auto

declare bitlen.simps [simp del] trailing_zeros.simps [simp del]

definition canonical :: "float \<Rightarrow> float" where
  "canonical f = (case f of (m, e) \<Rightarrow>
     if m = 0 then (0, 0)
     else (m div 2 ^ trailing_zeros \<bar>m\<bar>, e + int (trailing_zeros \<bar>m\<bar>)))"

text \<open>
  \<open>round_nearest_even m s sticky\<close> rounds \<open>(m + t) / 2 ^ s\<close> to the nearest integer,
  ties to even, where \<open>0 \<le> t < 1\<close> is a discarded remainder and \<open>sticky\<close> says
  whether \<open>t\<close> is non-zero.
\<close>

definition round_nearest_even :: "int \<Rightarrow> nat \<Rightarrow> bool \<Rightarrow> int" where
  "round_nearest_even m s sticky =
     (if s = 0 then m
      else let q = m div 2 ^ s; r = m mod 2 ^ s; h = 2 ^ (s - 1)
           in if r < h then q
              else if h < r \<or> sticky then q + 1
              else if even q then q else q + 1)"

definition normalise :: "int \<Rightarrow> int \<Rightarrow> int \<Rightarrow> bool \<Rightarrow> float" where
  "normalise sign mag e sticky =
     (let s = bitlen mag - 53
      in canonical (sign * round_nearest_even mag s sticky, e + int s))"

definition f_of_int :: "int \<Rightarrow> float" where
  "f_of_int n = normalise (sgn n) \<bar>n\<bar> 0 False"

definition f_neg :: "float \<Rightarrow> float" where
  "f_neg a = (case a of (m, e) \<Rightarrow> (- m, e))"

definition f_abs :: "float \<Rightarrow> float" where
  "f_abs a = (case a of (m, e) \<Rightarrow> (\<bar>m\<bar>, e))"

definition f_add :: "float \<Rightarrow> float \<Rightarrow> float" where
  "f_add a b = (case (a, b) of ((m1, e1), (m2, e2)) \<Rightarrow>
     let e = min e1 e2; m = m1 * 2 ^ nat (e1 - e) + m2 * 2 ^ nat (e2 - e)
     in normalise (sgn m) \<bar>m\<bar> e False)"

definition f_sub :: "float \<Rightarrow> float \<Rightarrow> float" where
  "f_sub a b = f_add a (f_neg b)"

definition f_mul :: "float \<Rightarrow> float \<Rightarrow> float" where
  "f_mul a b = (case (a, b) of ((m1, e1), (m2, e2)) \<Rightarrow>
     normalise (sgn (m1 * m2)) \<bar>m1 * m2\<bar> (e1 + e2) False)"

text \<open>
  Division of a number by a non-zero number: the quotient of the mantissas is computed
  to at least 56 bits, the remainder is the sticky bit. Callers test for a zero
  divisor first, where Python raises \<^verbatim>\<open>ZeroDivisionError\<close>.
\<close>

definition f_div :: "float \<Rightarrow> float \<Rightarrow> float" where
  "f_div a b = (case (a, b) of ((m1, e1), (m2, e2)) \<Rightarrow>
     let n = \<bar>m1\<bar>; d = \<bar>m2\<bar>; k = 55 + bitlen d;
         q = (n * 2 ^ k) div d; sticky = ((n * 2 ^ k) mod d \<noteq> 0)
     in normalise (sgn m1 * sgn m2) q (e1 - e2 - int k) sticky)"

definition f_less :: "float \<Rightarrow> float \<Rightarrow> bool" where
  "f_less a b = (case (a, b) of ((m1, e1), (m2, e2)) \<Rightarrow>
     let e = min e1 e2 in m1 * 2 ^ nat (e1 - e) < m2 * 2 ^ nat (e2 - e))"

definition f_le :: "float \<Rightarrow> float \<Rightarrow> bool" where
  "f_le a b = (case (a, b) of ((m1, e1), (m2, e2)) \<Rightarrow>
     let e = min e1 e2 in m1 * 2 ^ nat (e1 - e) \<le> m2 * 2 ^ nat (e2 - e))"

definition f_is_zero :: "float \<Rightarrow> bool" where
  "f_is_zero a = (fst a = 0)"

text \<open>\<^verbatim>\<open>int(x)\<close> on a float truncates towards zero.\<close>

definition f_trunc :: "float \<Rightarrow> int" where
  "f_trunc a = (case a of (m, e) \<Rightarrow>
     if 0 \<le> e then m * 2 ^ nat e else sgn m * (\<bar>m\<bar> div 2 ^ nat (- e)))"

text \<open>\<^verbatim>\<open>x.is_integer()\<close>: a canonical pair denotes an integer when its exponent is not negative.\<close>

definition f_is_integer :: "float \<Rightarrow> bool" where
  "f_is_integer a = (0 \<le> snd (canonical a))"

text \<open>The exact rational number that a pair denotes.\<close>

definition f_val :: "float \<Rightarrow> rat" where
  "f_val a = (case a of (m, e) \<Rightarrow>
     if 0 \<le> e then of_int (m * 2 ^ nat e) else of_int m / of_int (2 ^ nat (- e)))"

text \<open>
  The decimal literal \<open>n / d\<close> of the source text denotes the float nearest to that
  quotient, which is what the correctly rounded division of the two integers gives.
\<close>

definition f_literal :: "int \<Rightarrow> int \<Rightarrow> float" where
  "f_literal n d = f_div (f_of_int n) (f_of_int d)"

text \<open>
  \<^verbatim>\<open>xs[i]\<close> on a Python list: an index from 0 up to the length reads from the
  front, one from minus the length up to -1 reads from the back, any other raises.
\<close>

definition py_index :: "'a list \<Rightarrow> int \<Rightarrow> exn + 'a" where
  "py_index xs i =
     (if 0 \<le> i \<and> i < int (length xs) then Inr (xs ! nat i)
      else if - int (length xs) \<le> i \<and> i < 0 then Inr (xs ! nat (int (length xs) + i))
      else Inl IndexError)"

section \<open>Window utilities\<close>

text \<open>
  Source: \<^verbatim>\<open>src/ui/utils.py\<close>. A screen of the application is its geometry
  \<open>(x, y, width, height)\<close> and its device pixel ratio. A region is a 4-tuple; the
  callers in the map overlay pass components that may be \<^verbatim>\<open>None\<close>, and using
  \<^verbatim>\<open>None\<close> in a comparison or in arithmetic raises \<^verbatim>\<open>TypeError\<close>.
\<close>

type_synonym screen = "int \<times> int \<times> int \<times> int \<times> float"

type_synonym region = "int option \<times> int option \<times> int option \<times> int option"

fun get_qt_screen_by_mss_region :: "screen list \<Rightarrow> region \<Rightarrow> exn + screen" where
  "get_qt_screen_by_mss_region [] r = Inl ValueError"
| "get_qt_screen_by_mss_region ((sx, sy, sw, sh, ratio) # screens) (x, y, w, h) =
     (let mss_sw = f_trunc (f_mul (f_of_int sw) ratio);
          mss_sh = f_trunc (f_mul (f_of_int sh) ratio)
      in case x of
           None \<Rightarrow> Inl TypeError
         | Some xv \<Rightarrow>
             if sx \<le> xv \<and> xv \<le> sx + mss_sw then
               (case y of
                  None \<Rightarrow> Inl TypeError
                | Some yv \<Rightarrow>
                    if sy \<le> yv \<and> yv \<le> sy + mss_sh then Inr (sx, sy, sw, sh, ratio)
                    else get_qt_screen_by_mss_region screens (x, y, w, h))
             else get_qt_screen_by_mss_region screens (x, y, w, h))"

text \<open>\<^verbatim>\<open>int(v / ratio)\<close> for an integer or absent \<open>v\<close>.\<close>

definition int_div_ratio :: "int option \<Rightarrow> float \<Rightarrow> exn + int" where
  "int_div_ratio v ratio =
     (case v of
        None \<Rightarrow> Inl TypeError
      | Some n \<Rightarrow> if f_is_zero ratio then Inl ZeroDivisionError
                  else Inr (f_trunc (f_div (f_of_int n) ratio)))"

definition mss_region_to_qt_region :: "screen list \<Rightarrow> region \<Rightarrow> exn + (int \<times> int \<times> int \<times> int)" where
  "mss_region_to_qt_region screens r =
     (case get_qt_screen_by_mss_region screens r of
        Inl e \<Rightarrow> Inl e
      | Inr (sx, sy, sw, sh, ratio) \<Rightarrow>
          (case r of (x, y, w, h) \<Rightarrow>
             (case int_div_ratio (map_option (\<lambda>v. v - sx) x) ratio of
                Inl e \<Rightarrow> Inl e
              | Inr dx \<Rightarrow>
                 (case int_div_ratio (map_option (\<lambda>v. v - sy) y) ratio of
                    Inl e \<Rightarrow> Inl e
                  | Inr dy \<Rightarrow>
                     (case int_div_ratio w ratio of
                        Inl e \<Rightarrow> Inl e
                      | Inr qw \<Rightarrow>
                         (case int_div_ratio h ratio of
                            Inl e \<Rightarrow> Inl e
                          | Inr qh \<Rightarrow> Inr (sx + dx, sy + dy, qw, qh)))))))"

definition process_region_to_adapt_scale ::
  "int \<times> int \<times> int \<times> int \<Rightarrow> float \<Rightarrow> exn + (int \<times> int \<times> int \<times> int)" where
  "process_region_to_adapt_scale r scale =
     (case r of (x, y, w, h) \<Rightarrow>
        if f_is_zero scale then Inl ZeroDivisionError
        else
          (let new_w = f_trunc (f_mul (f_of_int (f_trunc (f_div (f_of_int w) scale))) scale);
               new_h = f_trunc (f_mul (f_of_int (f_trunc (f_div (f_of_int h) scale))) scale)
           in Inr (x, y, new_w, new_h)))"

section \<open>Map overlay window\<close>

text \<open>
  Source: \<^verbatim>\<open>src/ui/map_overlay.py\<close>. Images are values of an arbitrary type
  \<open>'img\<close>. The patch \<^verbatim>\<open>MapOverlayUIState\<close> has its fields prefixed with
  \<open>ui_\<close>, the fields of the widget keep their names.
\<close>

record 'img MapOverlayUIState =
  ui_x :: "int option"
  ui_y :: "int option"
  ui_w :: "int option"
  ui_h :: "int option"
  ui_opacity :: "float option"
  ui_visible :: "bool option"
  ui_overlay_images :: "'img list option"
  ui_display_crystal_layout :: "bool option"
  ui_clear_image :: bool
  ui_map_pattern_matching :: "bool option"
  ui_map_pattern_match_time :: "float option"
  ui_only_show_when_game_foreground :: "bool option"
  ui_is_game_foreground :: "bool option"
  ui_is_menu_opened :: "bool option"
  ui_is_setting_opened :: "bool option"

text \<open>\<^verbatim>\<open>MapOverlayUIState()\<close>: every field at its default.\<close>

definition default_ui_state :: "'img MapOverlayUIState" where
  "default_ui_state =
     \<lparr>ui_x = None, ui_y = None, ui_w = None, ui_h = None, ui_opacity = None, ui_visible = None,
      ui_overlay_images = None, ui_display_crystal_layout = None, ui_clear_image = False,
      ui_map_pattern_matching = None, ui_map_pattern_match_time = None,
      ui_only_show_when_game_foreground = None, ui_is_game_foreground = None,
      ui_is_menu_opened = None, ui_is_setting_opened = None\<rparr>"

text \<open>
  The state of the widget: the attributes that the class assigns, and from the toolkit
  the window geometry, the window opacity, whether the window is shown, and the
  pixmaps of the two image labels (\<open>None\<close> for a cleared label).
\<close>

record 'img MapOverlayWidget =
  geometry :: "int \<times> int \<times> int \<times> int"
  window_opacity :: float
  is_visible :: bool
  map_pattern_idx :: "int option"
  overlay_images :: "'img list option"
  map_pattern_match_time :: float
  map_pattern_matching :: bool
  overlay_image_box :: "'img option"
  crystal_layout_idx :: "int option"
  crystal_layout_imgs :: "'img list"
  crystal_layout_image_box :: "'img option"
  target_opacity :: float
  visible :: bool
  only_show_when_game_foreground :: bool
  is_game_foreground :: bool
  is_menu_opened :: bool
  is_setting_opened :: bool

text \<open>
  A method either returns or raises; in both cases the widget keeps the assignments made
  so far. A method is a function from the widget to the widget afterwards and the
  exception raised, if any.
\<close>

type_synonym 'img outcome = "'img MapOverlayWidget \<times> exn option"

definition and_then :: "'img outcome \<Rightarrow> ('img MapOverlayWidget \<Rightarrow> 'img outcome) \<Rightarrow> 'img outcome" where
  "and_then r f = (case r of (wd, None) \<Rightarrow> f wd | (wd, Some e) \<Rightarrow> (wd, Some e))"

definition update_overlay_images :: "'img MapOverlayWidget \<Rightarrow> 'img outcome" where
  "update_overlay_images wd =
     (if overlay_images wd = None \<or> overlay_images wd = Some []
      then (wd\<lparr>overlay_images := None, overlay_image_box := None\<rparr>, None)
      else (case map_pattern_idx wd of
              None \<Rightarrow> (wd, Some TypeError)
            | Some i \<Rightarrow>
                (case py_index (the (overlay_images wd)) i of
                   Inl e \<Rightarrow> (wd, Some e)
                 | Inr img \<Rightarrow> (wd\<lparr>overlay_image_box := Some img\<rparr>, None))))"

definition set_overlay_images :: "'img list option \<Rightarrow> 'img MapOverlayWidget \<Rightarrow> 'img outcome" where
  "set_overlay_images imgs wd =
     update_overlay_images (wd\<lparr>overlay_images := imgs, map_pattern_idx := Some 0\<rparr>)"

definition next_overlay_image :: "'img MapOverlayWidget \<Rightarrow> 'img outcome" where
  "next_overlay_image wd =
     (if visible wd \<and> overlay_images wd \<noteq> None then
        (case map_pattern_idx wd of
           None \<Rightarrow> (wd, Some TypeError)
         | Some i \<Rightarrow>
             (let i1 = i + 1;
                  i2 = (if i1 \<ge> int (length (the (overlay_images wd))) then 0 else i1)
              in update_overlay_images (wd\<lparr>map_pattern_idx := Some i2\<rparr>)))
      else (wd, None))"

definition last_overlay_image :: "'img MapOverlayWidget \<Rightarrow> 'img outcome" where
  "last_overlay_image wd =
     (if visible wd \<and> overlay_images wd \<noteq> None then
        (case map_pattern_idx wd of
           None \<Rightarrow> (wd, Some TypeError)
         | Some i \<Rightarrow>
             (let i1 = i - 1;
                  i2 = (if i1 < 0 then int (length (the (overlay_images wd))) - 1 else i1)
              in update_overlay_images (wd\<lparr>map_pattern_idx := Some i2\<rparr>)))
      else (wd, None))"

definition update_crystal_layout :: "'img MapOverlayWidget \<Rightarrow> 'img outcome" where
  "update_crystal_layout wd =
     (case crystal_layout_idx wd of
        None \<Rightarrow> (wd\<lparr>crystal_layout_image_box := None\<rparr>, None)
      | Some i \<Rightarrow>
          (case py_index (crystal_layout_imgs wd) i of
             Inl e \<Rightarrow> (wd, Some e)
           | Inr img \<Rightarrow> (wd\<lparr>crystal_layout_image_box := Some img\<rparr>, None)))"

text \<open>
  \<^verbatim>\<open>update_ui_state\<close>, one definition for each \<^verbatim>\<open>if\<close> of the method that can
  raise or that calls another method, and one for the plain assignments between them.
  The screens of the application are a parameter.
\<close>

definition apply_geometry :: "screen list \<Rightarrow> 'img MapOverlayUIState \<Rightarrow> 'img MapOverlayWidget \<Rightarrow> 'img outcome" where
  "apply_geometry screens st wd =
     (if ui_x st \<noteq> None then
        (case mss_region_to_qt_region screens (ui_x st, ui_y st, ui_w st, ui_h st) of
           Inl e \<Rightarrow> (wd, Some e)
         | Inr r \<Rightarrow> (wd\<lparr>geometry := r\<rparr>, None))
      else (wd, None))"

definition apply_opacity_visible :: "'img MapOverlayUIState \<Rightarrow> 'img MapOverlayWidget \<Rightarrow> 'img outcome" where
  "apply_opacity_visible st wd =
     (let wd1 = (case ui_opacity st of None \<Rightarrow> wd | Some v \<Rightarrow> wd\<lparr>target_opacity := v\<rparr>);
          wd2 = (case ui_visible st of None \<Rightarrow> wd1 | Some v \<Rightarrow> wd1\<lparr>visible := v\<rparr>)
      in (wd2, None))"

definition apply_overlay_images :: "'img MapOverlayUIState \<Rightarrow> 'img MapOverlayWidget \<Rightarrow> 'img outcome" where
  "apply_overlay_images st wd =
     (if ui_overlay_images st \<noteq> None then set_overlay_images (ui_overlay_images st) wd
      else (wd, None))"

definition apply_clear_image :: "'img MapOverlayUIState \<Rightarrow> 'img MapOverlayWidget \<Rightarrow> 'img outcome" where
  "apply_clear_image st wd =
     (if ui_clear_image st then set_overlay_images None wd else (wd, None))"

definition apply_flags :: "'img MapOverlayUIState \<Rightarrow> 'img MapOverlayWidget \<Rightarrow> 'img outcome" where
  "apply_flags st wd =
     (let wd1 = (case ui_only_show_when_game_foreground st of
                   None \<Rightarrow> wd | Some v \<Rightarrow> wd\<lparr>only_show_when_game_foreground := v\<rparr>);
          wd2 = (case ui_is_game_foreground st of None \<Rightarrow> wd1 | Some v \<Rightarrow> wd1\<lparr>is_game_foreground := v\<rparr>);
          wd3 = (case ui_is_menu_opened st of None \<Rightarrow> wd2 | Some v \<Rightarrow> wd2\<lparr>is_menu_opened := v\<rparr>);
          wd4 = (case ui_is_setting_opened st of None \<Rightarrow> wd3 | Some v \<Rightarrow> wd3\<lparr>is_setting_opened := v\<rparr>);
          wd5 = (case ui_map_pattern_matching st of None \<Rightarrow> wd4 | Some v \<Rightarrow> wd4\<lparr>map_pattern_matching := v\<rparr>);
          wd6 = (case ui_map_pattern_match_time st of None \<Rightarrow> wd5 | Some v \<Rightarrow> wd5\<lparr>map_pattern_match_time := v\<rparr>)
      in (wd6, None))"

definition apply_crystal_layout :: "'img MapOverlayUIState \<Rightarrow> 'img MapOverlayWidget \<Rightarrow> 'img outcome" where
  "apply_crystal_layout st wd =
     (case ui_display_crystal_layout st of
        None \<Rightarrow> (wd, None)
      | Some d \<Rightarrow> update_crystal_layout (wd\<lparr>crystal_layout_idx := (if d then Some 0 else None)\<rparr>))"

definition update_ui_state :: "screen list \<Rightarrow> 'img MapOverlayWidget \<Rightarrow> 'img MapOverlayUIState \<Rightarrow> 'img outcome" where
  "update_ui_state screens wd st =
     and_then (and_then (and_then (and_then (and_then
       (apply_geometry screens st wd)
       (apply_opacity_visible st))
       (apply_overlay_images st))
       (apply_clear_image st))
       (apply_flags st))
       (apply_crystal_layout st)"

text \<open>The patch that \<^verbatim>\<open>MapOverlayWidget.__init__\<close> applies at its end.\<close>

definition constructor_ui_state :: "'img MapOverlayUIState" where
  "constructor_ui_state =
     default_ui_state\<lparr>ui_w := Some 10, ui_h := Some 10, ui_opacity := Some (0, 0), ui_visible := Some True\<rparr>"

text \<open>
  The paging invariant: a stored image list is not empty and the page index is an
  index into it.
\<close>

definition paging_invariant :: "'img MapOverlayWidget \<Rightarrow> bool" where
  "paging_invariant wd =
     (case overlay_images wd of
        None \<Rightarrow> True
      | Some imgs \<Rightarrow>
          imgs \<noteq> [] \<and>
          (case map_pattern_idx wd of None \<Rightarrow> False | Some i \<Rightarrow> 0 \<le> i \<and> i < int (length imgs)))"

subsection \<open>Opacity easing in the timer event\<close>

text \<open>
  The block of \<^verbatim>\<open>timerEvent\<close> under "update opacity". The toolkit is a parameter:
  \<open>store v\<close> is the opacity that \<^verbatim>\<open>windowOpacity()\<close> reports after
  \<^verbatim>\<open>setWindowOpacity(v)\<close>. The result is the local \<^verbatim>\<open>real_opacity\<close> after
  the block and the opacity of the window.
\<close>

definition ease_opacity :: "(float \<Rightarrow> float) \<Rightarrow> float \<Rightarrow> float \<Rightarrow> float \<times> float" where
  "ease_opacity store target window =
     (let threshold = f_literal 1 100;
          step = f_literal 6 10;
          real_opacity = window;
          dlt = f_sub target real_opacity
      in if f_less threshold (f_abs dlt) then
           (let r = f_add real_opacity (f_mul dlt step) in (r, store r))
         else if f_less (0, 0) (f_abs dlt) \<and> f_le (f_abs dlt) threshold then
           (target, store target)
         else (real_opacity, window))"

definition timerEvent :: "(float \<Rightarrow> float) \<Rightarrow> 'img MapOverlayWidget \<Rightarrow> 'img MapOverlayWidget" where
  "timerEvent store wd =
     (let (real_opacity, shown_opacity) = ease_opacity store (target_opacity wd) (window_opacity wd);
          wd1 = wd\<lparr>window_opacity := shown_opacity\<rparr>;
          v0 = (visible wd1 \<and> f_less (f_literal 1 100) real_opacity);
          v = (if only_show_when_game_foreground wd1
               then v0 \<and> (is_game_foreground wd1 \<or> is_menu_opened wd1 \<or> is_setting_opened wd1)
               else v0)
      in if v \<and> \<not> is_visible wd1 then wd1\<lparr>is_visible := True\<rparr>
         else if \<not> v \<and> is_visible wd1 then wd1\<lparr>is_visible := False\<rparr>
         else wd1)"

text \<open>A toolkit that reports the opacity it was given.\<close>

definition exact_store :: "float \<Rightarrow> float" where
  "exact_store v = v"

text \<open>
  Qt keeps the opacity of a top-level window in eight bits: \<^verbatim>\<open>setWindowOpacity\<close>
  clamps its argument to \<open>[0, 1]\<close> and stores \<^verbatim>\<open>uint(opacity * 255)\<close>, and
  \<^verbatim>\<open>windowOpacity\<close> returns the stored number divided by 255.
\<close>

definition qt_store :: "float \<Rightarrow> float" where
  "qt_store v =
     (let c = (if f_less v (0, 0) then (0, 0) else if f_less (1, 0) v then (1, 0) else v)
      in f_div (f_of_int (f_trunc (f_mul c (f_of_int 255)))) (f_of_int 255))"

text \<open>The window opacity after \<open>n\<close> timer events with the target held fixed.\<close>

fun opacity_after :: "(float \<Rightarrow> float) \<Rightarrow> float \<Rightarrow> float \<Rightarrow> nat \<Rightarrow> float" where
  "opacity_after store target start 0 = start"
| "opacity_after store target start (Suc n) =
     snd (ease_opacity store target (opacity_after store target start n))"

text \<open>
  The widget as \<^verbatim>\<open>MapOverlayWidget.__init__\<close> has assigned it before its final
  \<^verbatim>\<open>update_ui_state\<close>; the geometry that the toolkit gave the new window and the
  loaded crystal layout images are parameters.
\<close>

definition initial_widget :: "int \<times> int \<times> int \<times> int \<Rightarrow> 'img list \<Rightarrow> 'img MapOverlayWidget" where
  "initial_widget g layouts =
     \<lparr>geometry = g, window_opacity = (1, 0), is_visible = False,
      map_pattern_idx = None, overlay_images = None,
      map_pattern_match_time = (0, 0), map_pattern_matching = False,
      overlay_image_box = None,
      crystal_layout_idx = None, crystal_layout_imgs = layouts, crystal_layout_image_box = None,
      target_opacity = (1, 0), visible = True,
      only_show_when_game_foreground = False, is_game_foreground = False,
      is_menu_opened = False, is_setting_opened = False\<rparr>"

text \<open>
  The behaviour that C8 describes, for a given toolkit: starting from opacity 0 with the
  target 1 held fixed, the window opacity never exceeds 1, it strictly increases at every
  tick at which it is below 1, the gap to the target is above the threshold 0.01 before
  each of the first six ticks, it is non-zero and at most 0.01 before the seventh tick,
  which therefore snaps, and from the seventh tick on the opacity is exactly 1.
\<close>

definition eases_to_target :: "(float \<Rightarrow> float) \<Rightarrow> bool" where
  "eases_to_target store =
     (let x = opacity_after store (1, 0) (0, 0) in
        x 0 = (0, 0)
      \<and> (\<forall>n. f_le (x n) (1, 0))
      \<and> (\<forall>n. f_less (x n) (1, 0) \<longrightarrow> f_less (x n) (x (Suc n)))
      \<and> (\<forall>n. n < 6 \<longrightarrow> f_less (f_literal 1 100) (f_abs (f_sub (1, 0) (x n))))
      \<and> f_less (0, 0) (f_abs (f_sub (1, 0) (x 6))) \<and> f_le (f_abs (f_sub (1, 0) (x 6))) (f_literal 1 100)
      \<and> (\<forall>n. 7 \<le> n \<longrightarrow> x n = (1, 0)))"

text \<open>The window opacity after 0, 1, ..., 7 ticks, for the two toolkits.\<close>

definition exact_values :: "float list" where
  "exact_values = [(0, 0), (5404319552844595, - 53), (7566047373982433, - 53), (131730289100587, - 47),
     (4388307476909811, - 52), (2228741383593111, - 51), (8970305766593573, - 53), (1, 0)]"

definition qt_values :: "float list" where
  "qt_values = [(0, 0), (5404319552844595, - 53), (7558982903978715, - 53), (4203359652212463, - 52),
     (8759942804610847, - 53), (278163506396413, - 48), (139633664917247, - 47), (1, 0)]"

section \<open>Release version manager\<close>

text \<open>
  Source: \<^verbatim>\<open>scripts/ci_version.py\<close>. A Python string is a sequence of code points;
  the model has the code points below 256, one \<open>char\<close> each. On these the classes of
  the regular expressions are: \<^verbatim>\<open>\d\<close> the ten ASCII digits, \<^verbatim>\<open>\s\<close> and
  \<^verbatim>\<open>str.strip\<close> the twelve white-space characters below, and a letter of a
  pattern compiled with \<^verbatim>\<open>re.IGNORECASE\<close> matches the characters whose lower case
  it is.
\<close>

abbreviation LF :: char where "LF \<equiv> CHR 0x0A"
abbreviation CR :: char where "CR \<equiv> CHR 0x0D"
abbreviation DQUOTE :: char where "DQUOTE \<equiv> CHR 0x22"

definition is_digit :: "char \<Rightarrow> bool" where
  "is_digit c = (48 \<le> (of_char c :: nat) \<and> (of_char c :: nat) \<le> 57)"

definition is_space :: "char \<Rightarrow> bool" where
  "is_space c = ((of_char c :: nat) \<in> {9, 10, 11, 12, 13, 28, 29, 30, 31, 32, 133, 160})"

text \<open>\<^verbatim>\<open>str.lower\<close> on one character: the ASCII and the Latin-1 capital letters.\<close>

definition lower_char :: "char \<Rightarrow> char" where
  "lower_char c =
     (let n = (of_char c :: nat)
      in if (65 \<le> n \<and> n \<le> 90) \<or> (192 \<le> n \<and> n \<le> 222 \<and> n \<noteq> 215) then char_of (n + 32) else c)"

definition lower :: "string \<Rightarrow> string" where
  "lower s = map lower_char s"

definition strip :: "string \<Rightarrow> string" where
  "strip s = rev (dropWhile is_space (rev (dropWhile is_space s)))"

definition startswith :: "string \<Rightarrow> string \<Rightarrow> bool" where
  "startswith s p = (take (length p) s = p)"

text \<open>
  \<^verbatim>\<open>re.fullmatch(r"\d+(?:\.\d+)*", s)\<close>, as the automaton of the expression: the
  flag says that the component being read has a digit already.
\<close>

fun digits_dots :: "bool \<Rightarrow> string \<Rightarrow> bool" where
  "digits_dots seen [] = seen"
| "digits_dots seen (c # cs) =
     (if is_digit c then digits_dots True cs
      else if c = CHR ''.'' \<and> seen then digits_dots False cs
      else False)"

definition version_fullmatch :: "string \<Rightarrow> bool" where
  "version_fullmatch s = digits_dots False s"

text \<open>
  The suffix expression
  \<^verbatim>\<open>(?P<label>alpha|a|beta|b|rc|pre|preview|dev|post)\.?(?P<num>\d+)\<close> with
  \<^verbatim>\<open>re.IGNORECASE\<close>. The matcher tries the alternatives in their order and, for
  each one that is a prefix of the input up to case, matches the rest of the expression
  against the rest of the input; it moves on to the next alternative when that fails.
\<close>

definition LABELS :: "string list" where
  "LABELS = [''alpha'', ''a'', ''beta'', ''b'', ''rc'', ''pre'', ''preview'', ''dev'', ''post'']"

text \<open>\<^verbatim>\<open>\.?(?P<num>\d+)\<close> against the whole of the rest: the group \<^verbatim>\<open>num\<close>.\<close>

definition match_dot_num :: "string \<Rightarrow> string option" where
  "match_dot_num r =
     (let d = (case r of [] \<Rightarrow> [] | c # cs \<Rightarrow> if c = CHR ''.'' then cs else r)
      in if d \<noteq> [] \<and> list_all is_digit d then Some d else None)"

fun match_alternatives :: "string list \<Rightarrow> string \<Rightarrow> (string \<times> string) option" where
  "match_alternatives [] s = None"
| "match_alternatives (l # ls) s =
     (if length l \<le> length s \<and> lower (take (length l) s) = l then
        (case match_dot_num (drop (length l) s) of
           Some num \<Rightarrow> Some (take (length l) s, num)
         | None \<Rightarrow> match_alternatives ls s)
      else match_alternatives ls s)"

definition suffix_fullmatch :: "string \<Rightarrow> (string \<times> string) option" where
  "suffix_fullmatch s = match_alternatives LABELS s"

text \<open>
  The first statements of \<^verbatim>\<open>tag_to_pep440\<close>: the tag after the surrounding white
  space and one leading \<^verbatim>\<open>refs/tags/\<close> are removed.
\<close>

definition tag_body :: "string \<Rightarrow> string" where
  "tag_body tag0 =
     (let tag = strip tag0
      in if startswith tag ''refs/tags/'' then drop (length ''refs/tags/'') tag else tag)"

definition tag_to_pep440 :: "string \<Rightarrow> exn + (string \<times> bool)" where
  "tag_to_pep440 tag0 =
     (let tag = tag_body tag0
      in if \<not> startswith tag ''v'' \<or> length tag < 2 then Inl (VersionError TagMustStartWithV)
         else
           (let raw = drop 1 tag;
                is_prerelease = (CHR ''-'' \<in> set raw)
            in if \<not> is_prerelease then
                 (if \<not> version_fullmatch raw then Inl (VersionError ReleaseTagMalformed)
                  else Inr (raw, False))
               else
                 (let base = takeWhile (\<lambda>c. c \<noteq> CHR ''-'') raw;
                      suffix = drop 1 (dropWhile (\<lambda>c. c \<noteq> CHR ''-'') raw)
                  in if \<not> version_fullmatch base then Inl (VersionError PrereleaseBaseMalformed)
                     else
                       (case suffix_fullmatch suffix of
                          None \<Rightarrow> Inl (VersionError UnsupportedSuffix)
                        | Some (matched, num) \<Rightarrow>
                            (let label = lower matched
                             in if label \<in> {''alpha'', ''a''} then Inr (base @ ''a'' @ num, True)
                                else if label \<in> {''beta'', ''b''} then Inr (base @ ''b'' @ num, True)
                                else if label = ''rc'' then Inr (base @ ''rc'' @ num, True)
                                else if label \<in> {''pre'', ''preview''} then Inr (base @ ''rc'' @ num, True)
                                else if label = ''dev'' then Inr (base @ ''.dev'' @ num, True)
                                else if label = ''post'' then Inr (base @ ''.post'' @ num, True)
                                else Inl (VersionError UnhandledLabel))))))"

subsection \<open>The tag grammar in the words of the specification\<close>

text \<open>
  "Digits separated by dots": the string cut at every dot gives groups that are each
  a non-empty string of digits.
\<close>

fun split_dots :: "string \<Rightarrow> string list" where
  "split_dots [] = [[]]"
| "split_dots (c # cs) =
     (if c = CHR ''.'' then [] # split_dots cs
      else (case split_dots cs of [] \<Rightarrow> [[c]] | g # gs \<Rightarrow> (c # g) # gs))"

definition is_digits :: "string \<Rightarrow> bool" where
  "is_digits g = (g \<noteq> [] \<and> list_all is_digit g)"

definition digits_separated_by_dots :: "string \<Rightarrow> bool" where
  "digits_separated_by_dots s = list_all is_digits (split_dots s)"

text \<open>
  "A supported pre-release label followed by an optional dot and digits": the part of
  the suffix before its first digit or dot is one of the labels up to case, and the
  rest is digits, after one dot or none.
\<close>

definition supported_suffix :: "string \<Rightarrow> bool" where
  "supported_suffix s =
     (let l = takeWhile (\<lambda>c. \<not> is_digit c \<and> c \<noteq> CHR ''.'') s;
          r = dropWhile (\<lambda>c. \<not> is_digit c \<and> c \<noteq> CHR ''.'') s
      in lower l \<in> set LABELS \<and> (is_digits r \<or> (r \<noteq> [] \<and> hd r = CHR ''.'' \<and> is_digits (tl r))))"

text \<open>The labels consist of lower-case ASCII letters.\<close>

definition is_lower_letter :: "char \<Rightarrow> bool" where
  "is_lower_letter c = (97 \<le> (of_char c :: nat) \<and> (of_char c :: nat) \<le> 122)"

subsection \<open>The metadata file\<close>

text \<open>
  \<^verbatim>\<open>Path.read_text\<close> and \<^verbatim>\<open>Path.write_text\<close> open the file in text mode with
  the default \<^verbatim>\<open>newline=None\<close>. Reading then translates every \<^verbatim>\<open>\r\n\<close> and
  every other \<^verbatim>\<open>\r\<close> into \<^verbatim>\<open>\n\<close>, and writing translates every \<^verbatim>\<open>\n\<close> into
  \<^verbatim>\<open>os.linesep\<close>, which is a parameter of the model (\<^verbatim>\<open>\n\<close> on POSIX systems,
  \<^verbatim>\<open>\r\n\<close> on Windows). The content of a file is the sequence of code points that
  its bytes encode.
\<close>

fun universal_newlines :: "string \<Rightarrow> string" where
  "universal_newlines [] = []"
| "universal_newlines [c] = (if c = CR then [LF] else [c])"
| "universal_newlines (c # d # cs) =
     (if c = CR \<and> d = LF then LF # universal_newlines cs
      else if c = CR then LF # universal_newlines (d # cs)
      else c # universal_newlines (d # cs))"

definition read_text :: "string \<Rightarrow> string" where
  "read_text content = universal_newlines content"

definition write_text :: "string \<Rightarrow> string \<Rightarrow> string" where
  "write_text linesep text = concat (map (\<lambda>c. if c = LF then linesep else [c]) text)"

text \<open>
  \<^verbatim>\<open>str.splitlines(keepends=True)\<close>: a line ends after \<^verbatim>\<open>\r\n\<close> or after one of
  the line boundary characters; there is no empty last line.
\<close>

definition is_linebreak :: "char \<Rightarrow> bool" where
  "is_linebreak c = ((of_char c :: nat) \<in> {10, 11, 12, 13, 28, 29, 30, 133})"

fun split_lines :: "string \<Rightarrow> string \<Rightarrow> string list" where
  "split_lines acc [] = (if acc = [] then [] else [acc])"
| "split_lines acc [c] = [acc @ [c]]"
| "split_lines acc (c # d # cs) =
     (if c = CR \<and> d = LF then (acc @ [c, d]) # split_lines [] cs
      else if is_linebreak c then (acc @ [c]) # split_lines [] (d # cs)
      else split_lines (acc @ [c]) (d # cs))"

definition splitlines_keepends :: "string \<Rightarrow> string list" where
  "splitlines_keepends text = split_lines [] text"

text \<open>\<^verbatim>\<open>str.splitlines()\<close>: the same lines without their line boundary.\<close>

definition drop_linebreak :: "string \<Rightarrow> string" where
  "drop_linebreak line =
     (if 2 \<le> length line \<and> drop (length line - 2) line = [CR, LF] then take (length line - 2) line
      else if line \<noteq> [] \<and> is_linebreak (last line) then butlast line
      else line)"

definition splitlines :: "string \<Rightarrow> string list" where
  "splitlines text = map drop_linebreak (splitlines_keepends text)"

text \<open>\<^verbatim>\<open>line.rstrip('\r\n')\<close>.\<close>

definition rstrip_crlf :: "string \<Rightarrow> string" where
  "rstrip_crlf line = rev (dropWhile (\<lambda>c. c = CR \<or> c = LF) (rev line))"

text \<open>
  \<^verbatim>\<open>_SECTION_RE.match(line)\<close> for \<^verbatim>\<open>^\s*\[(?P<name>[^\]]+)\]\s*$\<close>: the group
  \<^verbatim>\<open>name\<close>. No white space is an opening bracket and the name has no closing
  bracket, so each part of the expression can match in one way only.
\<close>

definition section_match :: "string \<Rightarrow> string option" where
  "section_match line =
     (case dropWhile is_space line of
        [] \<Rightarrow> None
      | c # s2 \<Rightarrow>
          if c \<noteq> CHR ''['' then None
          else
            (let name = takeWhile (\<lambda>c. c \<noteq> CHR '']'') s2;
                 s3 = dropWhile (\<lambda>c. c \<noteq> CHR '']'') s2
             in if name \<noteq> [] \<and> s3 \<noteq> [] \<and> list_all is_space (drop 1 s3) then Some name else None))"

text \<open>
  \<^verbatim>\<open>_VERSION_LINE_RE.match(line)\<close> for
  \<^verbatim>\<open>^(?P<prefix>\s*version\s*=\s*)\"(?P<value>[^\"]*)\"(?P<suffix>\s*)$\<close>: the groups
  \<^verbatim>\<open>prefix\<close>, \<^verbatim>\<open>value\<close> and \<^verbatim>\<open>suffix\<close>.
\<close>

definition version_line_match :: "string \<Rightarrow> (string \<times> string \<times> string) option" where
  "version_line_match line =
     (let ws1 = takeWhile is_space line; r1 = dropWhile is_space line
      in if \<not> startswith r1 ''version'' then None
         else
           (let r2 = drop (length ''version'') r1;
                ws2 = takeWhile is_space r2; r3 = dropWhile is_space r2
            in if \<not> startswith r3 ''='' then None
               else
                 (let r4 = drop 1 r3;
                      ws3 = takeWhile is_space r4; r5 = dropWhile is_space r4
                  in if \<not> startswith r5 [DQUOTE] then None
                     else
                       (let r6 = drop 1 r5;
                            val = takeWhile (\<lambda>c. c \<noteq> DQUOTE) r6;
                            r7 = dropWhile (\<lambda>c. c \<noteq> DQUOTE) r6
                        in if r7 = [] \<or> \<not> list_all is_space (drop 1 r7) then None
                           else Some (ws1 @ ''version'' @ ws2 @ ''='' @ ws3, val, drop 1 r7)))))"

text \<open>
  The loop of \<^verbatim>\<open>update_pyproject_version\<close> over the remaining lines. The result is
  \<open>None\<close> when the function returns \<^verbatim>\<open>False\<close> and otherwise the remaining
  lines after the assignment to \<^verbatim>\<open>lines[idx]\<close>.
\<close>

fun update_lines :: "string \<Rightarrow> bool \<Rightarrow> string list \<Rightarrow> exn + string list option" where
  "update_lines new_version in_project [] = Inl (VersionError VersionLineNotFound)"
| "update_lines new_version in_project (line # rest) =
     (case section_match line of
        Some name \<Rightarrow>
          map_sum id (map_option ((#) line)) (update_lines new_version (strip name = ''project'') rest)
      | None \<Rightarrow>
          if \<not> in_project then
            map_sum id (map_option ((#) line)) (update_lines new_version in_project rest)
          else
            (let line_without_ending = rstrip_crlf line
             in case version_line_match line_without_ending of
                  None \<Rightarrow> map_sum id (map_option ((#) line)) (update_lines new_version in_project rest)
                | Some (prefix, current, suffix) \<Rightarrow>
                    if current = new_version then Inr None
                    else
                      (let line_ending = drop (length line_without_ending) line
                       in Inr (Some ((prefix @ [DQUOTE] @ new_version @ [DQUOTE] @ suffix @ line_ending)
                                     # rest)))))"

text \<open>
  \<^verbatim>\<open>update_pyproject_version\<close>: the value returned and the content of the file
  afterwards. The file is written only on the path that returns \<^verbatim>\<open>True\<close>.
\<close>

definition update_pyproject_version :: "string \<Rightarrow> string \<Rightarrow> string \<Rightarrow> exn + (bool \<times> string)" where
  "update_pyproject_version linesep content new_version =
     (case update_lines new_version False (splitlines_keepends (read_text content)) of
        Inl e \<Rightarrow> Inl e
      | Inr None \<Rightarrow> Inr (False, content)
      | Inr (Some lines) \<Rightarrow> Inr (True, write_text linesep (concat lines)))"

fun read_lines :: "bool \<Rightarrow> string list \<Rightarrow> exn + string" where
  "read_lines in_project [] = Inl (VersionError VersionLineNotFound)"
| "read_lines in_project (line # rest) =
     (case section_match line of
        Some name \<Rightarrow> read_lines (strip name = ''project'') rest
      | None \<Rightarrow>
          if \<not> in_project then read_lines in_project rest
          else (case version_line_match line of
                  None \<Rightarrow> read_lines in_project rest
                | Some (prefix, current, suffix) \<Rightarrow> Inr current))"

definition read_pyproject_version :: "string \<Rightarrow> exn + string" where
  "read_pyproject_version content = read_lines False (splitlines (read_text content))"

subsection \<open>The command line\<close>

text \<open>
  What \<^verbatim>\<open>main\<close> can change: the metadata file named by \<^verbatim>\<open>--file\<close>, the file
  named by the environment variable \<^verbatim>\<open>GITHUB_ENV\<close> (\<open>None\<close> when the variable is
  unset or empty), and the two output streams. The mismatch report on the error stream
  is kept as the pair of the current and the expected version.
\<close>

record world =
  pyproject :: string
  github_env :: "string option"
  stdout :: "string list"
  stderr :: "(string \<times> string) list"

record cli_args =
  arg_tag :: string
  arg_check :: bool
  arg_set_github_env :: bool

definition append_github_env :: "string \<Rightarrow> string \<Rightarrow> world \<Rightarrow> world" where
  "append_github_env name v wl =
     (case github_env wl of
        None \<Rightarrow> wl
      | Some env_log \<Rightarrow> wl\<lparr>github_env := Some (env_log @ name @ ''='' @ v @ [LF])\<rparr>)"

definition bool_text :: "bool \<Rightarrow> string" where
  "bool_text b = (if b then ''true'' else ''false'')"

text \<open>\<^verbatim>\<open>main\<close>: the world afterwards, and the exception raised or the exit status.\<close>

definition main :: "string \<Rightarrow> cli_args \<Rightarrow> world \<Rightarrow> world \<times> (exn + int)" where
  "main linesep args wl =
     (case tag_to_pep440 (arg_tag args) of
        Inl e \<Rightarrow> (wl, Inl e)
      | Inr (pep440_version, is_prerelease) \<Rightarrow>
          if arg_check args then
            (case read_pyproject_version (pyproject wl) of
               Inl e \<Rightarrow> (wl, Inl e)
             | Inr current \<Rightarrow>
                 (let wl1 = (if arg_set_github_env args then
                               append_github_env ''CURRENT_PROJECT_VERSION'' current
                                 (append_github_env ''IS_PRERELEASE'' (bool_text is_prerelease)
                                   (append_github_env ''PROJECT_VERSION'' pep440_version wl))
                             else wl)
                  in if current \<noteq> pep440_version
                     then (wl1\<lparr>stderr := stderr wl1 @ [(current, pep440_version)]\<rparr>, Inr 2)
                     else (wl1\<lparr>stdout := stdout wl1 @ [pep440_version]\<rparr>, Inr 0)))
          else
            (case update_pyproject_version linesep (pyproject wl) pep440_version of
               Inl e \<Rightarrow> (wl, Inl e)
             | Inr (changed, content) \<Rightarrow>
                 (let wl1 = wl\<lparr>pyproject := content\<rparr>;
                      wl2 = (if arg_set_github_env args then
                               append_github_env ''PYPROJECT_VERSION_CHANGED'' (bool_text changed)
                                 (append_github_env ''IS_PRERELEASE'' (bool_text is_prerelease)
                                   (append_github_env ''PROJECT_VERSION'' pep440_version wl1))
                             else wl1)
                  in (wl2\<lparr>stdout := stdout wl2 @ [pep440_version]\<rparr>, Inr 0))))"

section \<open>Map detector: construct types, base icons and sub-icons\<close>

text \<open>
  Source: \<^verbatim>\<open>src/detector/map_detector.py\<close>. Construct-type codes are Python
  integers, so they are modelled as \<open>int\<close>; Python's \<^verbatim>\<open>//\<close> is floor division,
  which is \<open>div\<close> on \<open>int\<close>.
\<close>

datatype attribute = FIRE | MAGIC | THUNDER | HOLY

datatype condition = BLEED | FROST | DEATH | FRENZY | CORRUPTION | POISON | SLEEP

text \<open>
  A sub-icon is a member of one of the two enumerations. Members of different plain
  \<^verbatim>\<open>Enum\<close> classes are never equal in Python, even when their values coincide, and
  every member of a plain \<^verbatim>\<open>Enum\<close> is truthy; \<^verbatim>\<open>None\<close> is falsy.
\<close>

datatype subicon = Attr attribute | Cond condition

definition CTYPE_SUBICON_TABLE :: "(int \<times> subicon) list" where
  "CTYPE_SUBICON_TABLE =
    [(30301, Attr MAGIC),
     (32101, Attr FIRE), (32102, Attr THUNDER), (32200, Attr FIRE), (32201, Cond FRENZY),
     (34001, Cond BLEED), (34002, Cond FROST), (34003, Attr HOLY), (34100, Cond POISON),
     (34101, Cond POISON), (34102, Attr MAGIC), (34103, Cond FROST), (34104, Cond SLEEP),
     (34200, Cond DEATH), (34300, Attr THUNDER), (38000, Attr HOLY), (38100, Attr FIRE),
     (50001, Cond POISON), (50011, Cond POISON), (50020, Cond FROST), (50030, Cond SLEEP),
     (50040, Cond CORRUPTION), (50050, Cond FRENZY),
     (50102, Cond BLEED), (50103, Attr THUNDER), (50104, Attr HOLY), (50113, Attr FIRE),
     (50114, Cond POISON), (50116, Attr THUNDER),
     (53580, Attr FIRE), (53590, Attr MAGIC),
     (53670, Cond CORRUPTION), (53680, Attr HOLY),
     (52500, Cond BLEED), (52520, Cond POISON), (52570, Cond SLEEP), (52550, Attr MAGIC),
     (52450, Cond SLEEP), (52460, Attr THUNDER), (52400, Attr HOLY), (52420, Cond FROST)]"

text \<open>\<^verbatim>\<open>CTYPE_SUBICON_MAP.get(ctype)\<close>: the keys of the table are pairwise distinct.\<close>

definition CTYPE_SUBICON_MAP :: "int \<Rightarrow> subicon option" where
  "CTYPE_SUBICON_MAP = map_of CTYPE_SUBICON_TABLE"

definition has_same_base_icon :: "int \<Rightarrow> int \<Rightarrow> bool" where
  "has_same_base_icon ctype1 ctype2 =
     (if ctype1 div 10000 = 5 \<or> ctype2 div 10000 = 5
      then ctype1 div 100 = ctype2 div 100
      else ctype1 div 1000 = ctype2 div 1000)"

text \<open>
  The decimal digits of a non-negative code, most significant first, and its leading
  \<open>k\<close> digits: the reading of "the leading 3 digits" that the specification uses.
\<close>

fun digits_upto :: "nat \<Rightarrow> nat \<Rightarrow> nat list" where
  "digits_upto 0 n = []"
| "digits_upto (Suc k) n = digits_upto k (n div 10) @ [n mod 10]"

definition leading_digits :: "nat \<Rightarrow> int \<Rightarrow> nat list" where
  "leading_digits k c = take k (digits_upto 5 (nat c))"

subsection \<open>Scoring one sampled position\<close>

text \<open>
  The body of the inner loop of \<^verbatim>\<open>MapDetector._match_map_pattern\<close>. The keys of
  \<^verbatim>\<open>self.all_poi_images\<close> are a parameter: the set is built from the data files
  when the detector is constructed.
\<close>

definition score_position :: "int set \<Rightarrow> int \<Rightarrow> int \<Rightarrow> int \<times> int" where
  "score_position all_poi_images ctype expect_ctype0 =
     (let expect_ctype = (if expect_ctype0 \<notin> all_poi_images then 0 else expect_ctype0);
          subicon = CTYPE_SUBICON_MAP ctype;
          expect_subicon = CTYPE_SUBICON_MAP expect_ctype
      in if \<not> has_same_base_icon ctype expect_ctype then
           (if subicon = expect_subicon then (1, 3) else (0, 10))
         else
           (if subicon = expect_subicon then (10, 0)
            else if subicon \<noteq> None \<or> expect_subicon \<noteq> None then (0, 10)
            else (3, 1)))"

type_synonym Position = "int \<times> int"

record Construct =
  construct_type :: int
  pos :: int
  is_display :: bool

definition EMPTY_CONSTRUCTION :: Construct where
  "EMPTY_CONSTRUCTION = \<lparr>construct_type = 0, pos = 0, is_display = False\<rparr>"

record MapPattern =
  pattern_id :: int
  earth_shifting :: int
  nightlord :: int
  pos_constructions :: "Position \<rightharpoonup> Construct"

record MapPatternMatchResult =
  pattern :: MapPattern
  result_nightlord :: "int option"
  score :: int
  error :: int

text \<open>
  \<^verbatim>\<open>poi_result\<close> is a dictionary filled in the order of the sorted sample
  positions; iterating it yields its items in that order, so it is an association list.
\<close>

fun score_pattern :: "int set \<Rightarrow> MapPattern \<Rightarrow> (Position \<times> int) list \<Rightarrow> int \<times> int \<Rightarrow> int \<times> int" where
  "score_pattern all_poi_images p [] acc = acc"
| "score_pattern all_poi_images p ((xy, ctype) # rest) (sc, er) =
     (let expect_ctype0 =
            construct_type (case pos_constructions p xy of None \<Rightarrow> EMPTY_CONSTRUCTION | Some c \<Rightarrow> c);
          (ds, de) = score_position all_poi_images ctype expect_ctype0
      in score_pattern all_poi_images p rest (sc + ds, er + de))"

text \<open>The loop over \<^verbatim>\<open>self.info.patterns\<close> that builds \<^verbatim>\<open>results\<close>.\<close>

fun collect_results ::
  "int set \<Rightarrow> int \<Rightarrow> int option \<Rightarrow> (Position \<times> int) list \<Rightarrow> MapPattern list \<Rightarrow> MapPatternMatchResult list" where
  "collect_results all_poi_images es nl poi_result [] = []"
| "collect_results all_poi_images es nl poi_result (p # ps) =
     (if earth_shifting p \<noteq> es then collect_results all_poi_images es nl poi_result ps
      else if nl \<noteq> None \<and> Some (nightlord p) \<noteq> nl then collect_results all_poi_images es nl poi_result ps
      else (let (sc, er) = score_pattern all_poi_images p poi_result (0, 0)
            in \<lparr>pattern = p, result_nightlord = nl, score = sc, error = er\<rparr>
               # collect_results all_poi_images es nl poi_result ps))"

subsection \<open>Ranking\<close>

text \<open>
  \<^verbatim>\<open>sorted(results, key=lambda x: (x.error, -x.score))\<close> is a stable sort on the
  lexicographic order of pairs; \<open>sort_key\<close> is the stable insertion sort. The slice
  \<^verbatim>\<open>results[:topk]\<close> is written out for every value \<^verbatim>\<open>topk\<close> can take:
  \<^verbatim>\<open>None\<close> keeps the whole list and a negative bound counts from the end.
\<close>

definition rank_key :: "MapPatternMatchResult \<Rightarrow> int \<times> int" where
  "rank_key x = (error x, - score x)"

definition slice_to :: "'a list \<Rightarrow> int option \<Rightarrow> 'a list" where
  "slice_to xs topk =
     (case topk of
        None \<Rightarrow> xs
      | Some k \<Rightarrow> if 0 \<le> k then take (nat k) xs else take (nat (int (length xs) + k)) xs)"

definition best_patterns_by_error :: "MapPatternMatchResult list \<Rightarrow> int option \<Rightarrow> MapPatternMatchResult list" where
  "best_patterns_by_error results topk = slice_to (sort_key rank_key results) topk"

text \<open>
  The part of \<^verbatim>\<open>_match_map_pattern\<close> after image recognition: the recognised
  nightlord and the recognised construct type of every sampled position are its inputs.
\<close>

definition match_map_pattern ::
  "int set \<Rightarrow> MapPattern list \<Rightarrow> int \<Rightarrow> int option \<Rightarrow> (Position \<times> int) list \<Rightarrow> int option \<Rightarrow> MapPatternMatchResult list" where
  "match_map_pattern all_poi_images patterns es nl poi_result topk =
     best_patterns_by_error (collect_results all_poi_images es nl poi_result patterns) topk"

text \<open>A scored candidate with pattern identifier \<open>i\<close>, error \<open>e\<close> and score \<open>s\<close>.\<close>

definition candidate :: "int \<Rightarrow> int \<Rightarrow> int \<Rightarrow> MapPatternMatchResult" where
  "candidate i e s =
     \<lparr>pattern = \<lparr>pattern_id = i, earth_shifting = 0, nightlord = 0, pos_constructions = Map.empty\<rparr>,
      result_nightlord = None, score = s, error = e\<rparr>"

section \<open>Properties of the map detector\<close>

subsection \<open>Base-icon equality\<close>

lemma digits_upto_5:
  "digits_upto 5 n = [n div 10000 mod 10, n div 1000 mod 10, n div 100 mod 10, n div 10 mod 10, n mod 10]"
proof -
  have five: "(5::nat) = Suc (Suc (Suc (Suc (Suc 0))))" by simp
  show ?thesis unfolding five by (simp add: div_mult2_eq[symmetric])
qed

lemma leading_digits_3:
  "leading_digits 3 c = [nat c div 10000 mod 10, nat c div 1000 mod 10, nat c div 100 mod 10]"
proof -
  have three: "(3::nat) = Suc (Suc (Suc 0))" by simp
  show ?thesis unfolding leading_digits_def digits_upto_5 three by simp
qed

lemma div_mod_10_eq: "(x::nat) div 10 = y div 10 \<Longrightarrow> x mod 10 = y mod 10 \<Longrightarrow> x = y"
  by (metis div_mult_mod_eq)

lemma leading_three_nat:
  fixes a b :: nat
  assumes "a < 100000" "b < 100000"
  shows "([a div 10000 mod 10, a div 1000 mod 10, a div 100 mod 10]
          = [b div 10000 mod 10, b div 1000 mod 10, b div 100 mod 10]) = (a div 100 = b div 100)"
proof -
  have da: "a div 10000 = a div 100 div 10 div 10" "a div 1000 = a div 100 div 10"
    by (simp_all add: div_mult2_eq[symmetric])
  have db: "b div 10000 = b div 100 div 10 div 10" "b div 1000 = b div 100 div 10"
    by (simp_all add: div_mult2_eq[symmetric])
  have sa: "a div 10000 mod 10 = a div 10000" using assms(1) by simp
  have sb: "b div 10000 mod 10 = b div 10000" using assms(2) by simp
  show ?thesis
  proof
    assume "[a div 10000 mod 10, a div 1000 mod 10, a div 100 mod 10]
            = [b div 10000 mod 10, b div 1000 mod 10, b div 100 mod 10]"
    then have e: "a div 100 div 10 div 10 = b div 100 div 10 div 10"
      "a div 100 div 10 mod 10 = b div 100 div 10 mod 10" "a div 100 mod 10 = b div 100 mod 10"
      unfolding sa sb unfolding da db by simp_all
    have "a div 100 div 10 = b div 100 div 10" by (rule div_mod_10_eq[OF e(1) e(2)])
    then show "a div 100 = b div 100" by (rule div_mod_10_eq[OF _ e(3)])
  next
    assume "a div 100 = b div 100"
    then show "[a div 10000 mod 10, a div 1000 mod 10, a div 100 mod 10]
               = [b div 10000 mod 10, b div 1000 mod 10, b div 100 mod 10]"
      unfolding da db by simp
  qed
qed

lemma int_div_100: "(int a div 100 = int b div 100) = (a div 100 = b div 100)"
proof -
  have "int a div 100 = int (a div 100)" "int b div 100 = int (b div 100)" by simp_all
  then show ?thesis by simp
qed

lemma leading_three_eq:
  assumes "0 \<le> c1" "c1 < 100000" "0 \<le> c2" "c2 < 100000"
  shows "(leading_digits 3 c1 = leading_digits 3 c2) = (c1 div 100 = c2 div 100)"
proof -
  obtain a where a: "c1 = int a" using assms(1) nonneg_int_cases by blast
  obtain b where b: "c2 = int b" using assms(3) nonneg_int_cases by blast
  have "a < 100000" "b < 100000" using assms a b by simp_all
  then have "([a div 10000 mod 10, a div 1000 mod 10, a div 100 mod 10]
          = [b div 10000 mod 10, b div 1000 mod 10, b div 100 mod 10]) = (a div 100 = b div 100)"
    by (rule leading_three_nat)
  then show ?thesis
    unfolding leading_digits_3 a b int_div_100 nat_int .
qed

text \<open>
  C3 (as stated): the predicate is claimed to return false for the codes 53580 and 53590.
  Both codes lie in the DLC range and both have the leading digits 535, so the
  predicate returns true.
\<close>

theorem has_same_base_icon_53580_53590: "has_same_base_icon 53580 53590"
  by (simp add: has_same_base_icon_def)

text \<open>
  C3 (amended): when either code divided by 10000 equals 5 the predicate is true exactly
  when the codes divided by 100 agree, which for codes of at most five digits means
  that their leading three digits agree; otherwise it is true exactly when the codes
  divided by 1000 agree. It is true for (53580, 53581), true for (53580, 53590), true
  for (34001, 34002) and false for (34001, 38000).
\<close>

theorem has_same_base_icon_characterisation:
  "(has_same_base_icon c1 c2 \<longleftrightarrow>
      (if c1 div 10000 = 5 \<or> c2 div 10000 = 5 then c1 div 100 = c2 div 100
       else c1 div 1000 = c2 div 1000))
   \<and> (0 \<le> c1 \<and> c1 < 100000 \<and> 0 \<le> c2 \<and> c2 < 100000 \<and> (c1 div 10000 = 5 \<or> c2 div 10000 = 5)
        \<longrightarrow> has_same_base_icon c1 c2 = (leading_digits 3 c1 = leading_digits 3 c2))
   \<and> has_same_base_icon 53580 53581
   \<and> has_same_base_icon 53580 53590
   \<and> has_same_base_icon 34001 34002
   \<and> \<not> has_same_base_icon 34001 38000"
proof (intro conjI impI)
  show "has_same_base_icon c1 c2 \<longleftrightarrow>
      (if c1 div 10000 = 5 \<or> c2 div 10000 = 5 then c1 div 100 = c2 div 100
       else c1 div 1000 = c2 div 1000)"
    by (simp add: has_same_base_icon_def)
next
  assume h: "0 \<le> c1 \<and> c1 < 100000 \<and> 0 \<le> c2 \<and> c2 < 100000 \<and> (c1 div 10000 = 5 \<or> c2 div 10000 = 5)"
  then have "(leading_digits 3 c1 = leading_digits 3 c2) = (c1 div 100 = c2 div 100)"
    by (simp add: leading_three_eq)
  with h show "has_same_base_icon c1 c2 = (leading_digits 3 c1 = leading_digits 3 c2)"
    by (simp only: has_same_base_icon_def if_True)
qed (simp_all add: has_same_base_icon_def)

theorem has_same_base_icon_characterisation_witness:
  "(0::int) \<le> 53580 \<and> (53580::int) < 100000 \<and> (0::int) \<le> 53581 \<and> (53581::int) < 100000
   \<and> (53580::int) div 10000 = 5
   \<and> has_same_base_icon 53580 53581 = (leading_digits 3 53580 = leading_digits 3 53581)"
  using has_same_base_icon_characterisation [of 53580 53581]
  by (simp add: has_same_base_icon_def)

subsection \<open>Scoring\<close>

text \<open>
  What the code computes at one position, and that the totals of a pattern are the sums
  over the sampled positions.
\<close>

lemma score_position_cases:
  "score_position all_poi_images c e0 =
     (let e = (if e0 \<in> all_poi_images then e0 else 0) in
      if has_same_base_icon c e then
        (if CTYPE_SUBICON_MAP c = CTYPE_SUBICON_MAP e then (10, 0) else (0, 10))
      else
        (if CTYPE_SUBICON_MAP c = CTYPE_SUBICON_MAP e then (1, 3) else (0, 10)))"
  by (auto simp: score_position_def Let_def)

lemma score_pattern_totals:
  "score_pattern all_poi_images p xs (sc, er) =
     (sc + (\<Sum>(xy, c) \<leftarrow> xs. fst (score_position all_poi_images c
              (construct_type (case pos_constructions p xy of None \<Rightarrow> EMPTY_CONSTRUCTION | Some k \<Rightarrow> k)))),
      er + (\<Sum>(xy, c) \<leftarrow> xs. snd (score_position all_poi_images c
              (construct_type (case pos_constructions p xy of None \<Rightarrow> EMPTY_CONSTRUCTION | Some k \<Rightarrow> k)))))"
  by (induction xs arbitrary: sc er) (auto simp: Let_def split: prod.splits)

lemma subicon_34001: "CTYPE_SUBICON_MAP 34001 = Some (Cond BLEED)"
  by (simp add: CTYPE_SUBICON_MAP_def CTYPE_SUBICON_TABLE_def)

lemma subicon_34002: "CTYPE_SUBICON_MAP 34002 = Some (Cond FROST)"
  by (simp add: CTYPE_SUBICON_MAP_def CTYPE_SUBICON_TABLE_def)

text \<open>
  The branch that awards score 3 and error 1 is never taken: it is guarded by the two
  sub-icons being different and both absent, which cannot be.
\<close>

lemma score_position_never_3_1: "score_position all_poi_images c e \<noteq> (3, 1)"
  by (auto simp: score_position_def Let_def)

text \<open>
  C2: the observed blood ruins (34001, bleed) against the expected Samir ruins (34002,
  frost) share their base icon and both carry a sub-icon, and the sub-icons differ.
  The claim gives this position score 3 and error 1; the code gives score 0 and error 10.
\<close>

theorem score_position_differing_subicons:
  "has_same_base_icon 34001 34002
   \<and> CTYPE_SUBICON_MAP 34001 = Some (Cond BLEED)
   \<and> CTYPE_SUBICON_MAP 34002 = Some (Cond FROST)
   \<and> score_position {0, 34001, 34002} 34001 34002 = (0, 10)"
  by (simp add: score_position_def subicon_34001 subicon_34002 has_same_base_icon_def)

theorem score_position_differing_subicons_witness:
  "score_position {0, 34001, 34002} 34001 34002 \<noteq> (3, 1)"
  using score_position_differing_subicons by simp

subsection \<open>Ranking\<close>

lemma rank_key_le:
  "rank_key a \<le> rank_key b \<longleftrightarrow> error a < error b \<or> (error a = error b \<and> score b \<le> score a)"
  by (auto simp: rank_key_def)

lemma ranked_nth:
  assumes "i < j" "j < length (sort_key rank_key results)"
  shows "rank_key (sort_key rank_key results ! i) \<le> rank_key (sort_key rank_key results ! j)"
proof -
  have "sorted (map rank_key (sort_key rank_key results))" by (rule sorted_sort_key)
  then have "map rank_key (sort_key rank_key results) ! i \<le> map rank_key (sort_key rank_key results) ! j"
    using assms by (simp add: sorted_iff_nth_mono)
  then show ?thesis using assms by simp
qed

text \<open>
  C5: for a non-negative bound \<open>k\<close> the matcher returns the first \<open>k\<close> candidates of
  the list sorted by ascending error, ties broken by descending score, and the whole
  sorted list when there is no bound: the ranked list
  is a permutation of the candidates in which a candidate at an earlier place has a
  strictly lower error than one at a later place, or the same error and a score at
  least as high.
\<close>

theorem best_patterns_ranked:
  "0 \<le> k \<Longrightarrow>
     best_patterns_by_error results (Some k) = take (nat k) (sort_key rank_key results)
   \<and> best_patterns_by_error results None = sort_key rank_key results
   \<and> length (best_patterns_by_error results (Some k)) = min (nat k) (length results)
   \<and> mset (sort_key rank_key results) = mset results
   \<and> (\<forall>i j. i < j \<and> j < length results \<longrightarrow>
         error (sort_key rank_key results ! i) < error (sort_key rank_key results ! j)
       \<or> (error (sort_key rank_key results ! i) = error (sort_key rank_key results ! j)
          \<and> score (sort_key rank_key results ! j) \<le> score (sort_key rank_key results ! i)))"
proof (intro conjI allI impI)
  assume k: "0 \<le> k"
  show "best_patterns_by_error results (Some k) = take (nat k) (sort_key rank_key results)"
    using k by (simp add: best_patterns_by_error_def slice_to_def)
  then show "length (best_patterns_by_error results (Some k)) = min (nat k) (length results)"
    by (simp add: min.commute)
  show "best_patterns_by_error results None = sort_key rank_key results"
    by (simp add: best_patterns_by_error_def slice_to_def)
  show "mset (sort_key rank_key results) = mset results" by simp
next
  fix i j assume "0 \<le> k" and "i < j \<and> j < length results"
  then have "rank_key (sort_key rank_key results ! i) \<le> rank_key (sort_key rank_key results ! j)"
    using ranked_nth[of i j results] by simp
  then show "error (sort_key rank_key results ! i) < error (sort_key rank_key results ! j)
       \<or> (error (sort_key rank_key results ! i) = error (sort_key rank_key results ! j)
          \<and> score (sort_key rank_key results ! j) \<le> score (sort_key rank_key results ! i))"
    by (simp only: rank_key_le)
qed

theorem best_patterns_ranked_witness:
  "(0::int) \<le> 1
   \<and> best_patterns_by_error [candidate 1 5 100, candidate 2 3 1] (Some 1) = [candidate 2 3 1]
   \<and> best_patterns_by_error [candidate 1 3 2, candidate 2 3 9] (Some 1) = [candidate 2 3 9]"
  using best_patterns_ranked [of 1 "[candidate 1 5 100, candidate 2 3 1]"]
        best_patterns_ranked [of 1 "[candidate 1 3 2, candidate 2 3 9]"]
  by (simp add: rank_key_def candidate_def)

section \<open>Properties of the window utilities\<close>

text \<open>The model of floating-point numbers gives the binary64 numbers that Python gives.\<close>

lemma f_val_examples:
  "f_val (5, - 2) = 5 / 4"
  "f_val (1, 0) = 1"
  "f_val (2005, - 1) = 2005 / 2"
  by code_simp+

lemma f_literal_examples:
  "f_literal 125 100 = (5, - 2)"
  "f_literal 6 10 = (5404319552844595, - 53)"
  "f_literal 1 100 = (5764607523034235, - 59)"
  "f_add (f_literal 1 10) (f_literal 2 10) = (1351079888211149, - 52)"
  "f_of_int 9007199254740993 = (1, 53)"
  by code_simp+

text \<open>
  C6: for the region \<open>(0, 0, 1003, 751)\<close> and the scale factor 1.25 the helper
  returns the width 1002, and 1002 / 1.25 is 801.6 (the float 7050948166601933 / 2^43),
  not an integer: the helper computes \<open>int(int(w / scale) * scale)\<close> as the claim
  says, but the result need not divide by the scale factor, which is what its
  docstring and the claim promise.
\<close>

theorem process_region_1003_by_1_25:
  "process_region_to_adapt_scale (0, 0, 1003, 751) (f_literal 125 100) = Inr (0, 0, 1002, 750)
   \<and> f_div (f_of_int 1002) (f_literal 125 100) = (7050948166601933, - 43)
   \<and> \<not> f_is_integer (f_div (f_of_int 1002) (f_literal 125 100))
   \<and> f_is_integer (f_div (f_of_int 750) (f_literal 125 100))"
  by code_simp

theorem process_region_1003_by_1_25_witness:
  "process_region_to_adapt_scale (0, 0, 1003, 751) (f_literal 125 100) \<noteq> Inl ZeroDivisionError"
  using process_region_1003_by_1_25 by simp

section \<open>Properties of the map overlay window\<close>

subsection \<open>Geometry\<close>

lemma geometry_update_overlay_images [simp]: "geometry (fst (update_overlay_images wd)) = geometry wd"
  by (simp add: update_overlay_images_def split: option.splits sum.splits)

lemma geometry_set_overlay_images [simp]: "geometry (fst (set_overlay_images imgs wd)) = geometry wd"
  by (simp add: set_overlay_images_def)

lemma geometry_update_crystal_layout [simp]: "geometry (fst (update_crystal_layout wd)) = geometry wd"
  by (simp add: update_crystal_layout_def split: option.splits sum.splits)

lemma geometry_apply_opacity_visible [simp]: "geometry (fst (apply_opacity_visible st wd)) = geometry wd"
  by (simp add: apply_opacity_visible_def Let_def split: option.splits)

lemma geometry_apply_overlay_images [simp]: "geometry (fst (apply_overlay_images st wd)) = geometry wd"
  by (simp add: apply_overlay_images_def)

lemma geometry_apply_clear_image [simp]: "geometry (fst (apply_clear_image st wd)) = geometry wd"
  by (simp add: apply_clear_image_def)

lemma geometry_apply_flags [simp]: "geometry (fst (apply_flags st wd)) = geometry wd"
  by (simp add: apply_flags_def Let_def split: option.splits)

lemma geometry_apply_crystal_layout [simp]: "geometry (fst (apply_crystal_layout st wd)) = geometry wd"
  by (simp add: apply_crystal_layout_def split: option.splits)

lemma geometry_and_then:
  assumes "\<And>wd. geometry (fst (f wd)) = geometry wd"
  shows "geometry (fst (and_then r f)) = geometry (fst r)"
  using assms by (cases r) (auto simp: and_then_def split: option.splits)

lemma and_then_raised: "and_then (wd, Some e) f = (wd, Some e)"
  by (simp add: and_then_def)

lemma geometry_update_ui_state:
  "geometry (fst (update_ui_state screens wd st)) = geometry (fst (apply_geometry screens st wd))"
  by (simp add: update_ui_state_def geometry_and_then)

lemma get_qt_screen_no_y: "\<exists>e. get_qt_screen_by_mss_region screens (x, None, w, h) = Inl e"
  by (induction screens) (auto simp: Let_def split: option.splits)

lemma int_div_ratio_None: "int_div_ratio None ratio = Inl TypeError"
  by (simp add: int_div_ratio_def)

lemma mss_region_incomplete:
  assumes "y = None \<or> w = None \<or> h = None"
  shows "\<exists>e. mss_region_to_qt_region screens (x, y, w, h) = Inl e"
proof (cases "get_qt_screen_by_mss_region screens (x, y, w, h)")
  case (Inl e)
  then show ?thesis by (simp add: mss_region_to_qt_region_def)
next
  case (Inr s)
  have y: "y \<noteq> None"
  proof
    assume "y = None"
    then show False using Inr get_qt_screen_no_y[of screens x w h] by simp
  qed
  obtain sx sy sw sh ratio where s: "s = (sx, sy, sw, sh, ratio)" by (cases s) auto
  from y assms have "w = None \<or> h = None" by auto
  then show ?thesis using Inr s
    by (auto simp: mss_region_to_qt_region_def int_div_ratio_None split: sum.splits)
qed

lemma update_ui_state_incomplete:
  assumes "ui_x st \<noteq> None" "ui_y st = None \<or> ui_w st = None \<or> ui_h st = None"
  shows "\<exists>e. update_ui_state screens wd st = (wd, Some e)"
proof -
  obtain e where "mss_region_to_qt_region screens (ui_x st, ui_y st, ui_w st, ui_h st) = Inl e"
    using mss_region_incomplete[OF assms(2)] by blast
  then have "apply_geometry screens st wd = (wd, Some e)"
    using assms(1) by (simp add: apply_geometry_def)
  then show ?thesis by (simp add: update_ui_state_def and_then_raised)
qed

lemma update_ui_state_converted:
  assumes "ui_x st \<noteq> None" "mss_region_to_qt_region screens (ui_x st, ui_y st, ui_w st, ui_h st) = Inr r"
  shows "geometry (fst (update_ui_state screens wd st)) = r"
  using assms by (simp add: geometry_update_ui_state apply_geometry_def)

lemma example_region:
  "mss_region_to_qt_region [(0, 0, 1920, 1080, (1, 0))] (Some 100, Some 50, Some 400, Some 300)
     = Inr (100, 50, 400, 300)"
  by code_simp

text \<open>
  C9: a patch without \<open>x\<close> leaves the window geometry as it was, whatever \<open>y\<close>, \<open>w\<close>
  and \<open>h\<close> are, and so does the patch of the constructor; a patch with \<open>x\<close> but
  without one of \<open>y\<close>, \<open>w\<close>, \<open>h\<close> raises and leaves the whole widget as it was; and
  when the conversion to display space succeeds, which needs all four, the geometry
  is the converted region.
\<close>

theorem update_ui_state_geometry:
  "(ui_x st = None \<longrightarrow> geometry (fst (update_ui_state screens wd st)) = geometry wd)
   \<and> geometry (fst (update_ui_state screens wd constructor_ui_state)) = geometry wd
   \<and> (ui_x st \<noteq> None \<and> (ui_y st = None \<or> ui_w st = None \<or> ui_h st = None)
        \<longrightarrow> (\<exists>e. update_ui_state screens wd st = (wd, Some e)))
   \<and> (ui_x st \<noteq> None \<and> mss_region_to_qt_region screens (ui_x st, ui_y st, ui_w st, ui_h st) = Inr r
        \<longrightarrow> geometry (fst (update_ui_state screens wd st)) = r
            \<and> ui_y st \<noteq> None \<and> ui_w st \<noteq> None \<and> ui_h st \<noteq> None)"
proof (intro conjI impI)
  assume "ui_x st = None"
  then show "geometry (fst (update_ui_state screens wd st)) = geometry wd"
    by (simp add: geometry_update_ui_state apply_geometry_def)
next
  show "geometry (fst (update_ui_state screens wd constructor_ui_state)) = geometry wd"
    by (simp add: geometry_update_ui_state apply_geometry_def constructor_ui_state_def default_ui_state_def)
next
  assume "ui_x st \<noteq> None \<and> (ui_y st = None \<or> ui_w st = None \<or> ui_h st = None)"
  then show "\<exists>e. update_ui_state screens wd st = (wd, Some e)"
    by (simp add: update_ui_state_incomplete)
next
  assume h: "ui_x st \<noteq> None \<and> mss_region_to_qt_region screens (ui_x st, ui_y st, ui_w st, ui_h st) = Inr r"
  then show "geometry (fst (update_ui_state screens wd st)) = r"
    by (simp add: update_ui_state_converted)
  have "\<not> (ui_y st = None \<or> ui_w st = None \<or> ui_h st = None)"
  proof
    assume "ui_y st = None \<or> ui_w st = None \<or> ui_h st = None"
    then obtain e where "mss_region_to_qt_region screens (ui_x st, ui_y st, ui_w st, ui_h st) = Inl e"
      using mss_region_incomplete by blast
    with h show False by simp
  qed
  then show "ui_y st \<noteq> None" "ui_w st \<noteq> None" "ui_h st \<noteq> None" by simp_all
qed

theorem update_ui_state_geometry_witness:
  "ui_x (default_ui_state\<lparr>ui_w := Some 10, ui_h := Some 10\<rparr> :: nat MapOverlayUIState) = None
   \<and> geometry (fst (update_ui_state [(0, 0, 1920, 1080, (1, 0))] (initial_widget (0, 0, 640, 480) [])
         (default_ui_state\<lparr>ui_w := Some 10, ui_h := Some 10\<rparr> :: nat MapOverlayUIState))) = (0, 0, 640, 480)
   \<and> (\<exists>e. update_ui_state [(0, 0, 1920, 1080, (1, 0))] (initial_widget (0, 0, 640, 480) [])
         (default_ui_state\<lparr>ui_x := Some 100, ui_y := Some 50, ui_w := Some 400\<rparr> :: nat MapOverlayUIState)
          = (initial_widget (0, 0, 640, 480) [], Some e))
   \<and> geometry (fst (update_ui_state [(0, 0, 1920, 1080, (1, 0))] (initial_widget (0, 0, 640, 480) [])
         (default_ui_state\<lparr>ui_x := Some 100, ui_y := Some 50, ui_w := Some 400, ui_h := Some 300\<rparr>
            :: nat MapOverlayUIState))) = (100, 50, 400, 300)"
proof -
  let ?scr = "[(0, 0, 1920, 1080, (1, 0))] :: screen list"
  let ?wd = "initial_widget (0, 0, 640, 480) [] :: nat MapOverlayWidget"
  let ?st1 = "default_ui_state\<lparr>ui_w := Some 10, ui_h := Some 10\<rparr> :: nat MapOverlayUIState"
  let ?st2 = "default_ui_state\<lparr>ui_x := Some 100, ui_y := Some 50, ui_w := Some 400\<rparr> :: nat MapOverlayUIState"
  let ?st3 = "default_ui_state\<lparr>ui_x := Some 100, ui_y := Some 50, ui_w := Some 400, ui_h := Some 300\<rparr>
                :: nat MapOverlayUIState"
  have x1: "ui_x ?st1 = None" by (simp add: default_ui_state_def)
  have g1: "geometry (fst (update_ui_state ?scr ?wd ?st1)) = geometry ?wd"
    using update_ui_state_geometry [where st = ?st1 and screens = ?scr and wd = ?wd] x1 by blast
  have h2: "ui_x ?st2 \<noteq> None \<and> (ui_y ?st2 = None \<or> ui_w ?st2 = None \<or> ui_h ?st2 = None)"
    by (simp add: default_ui_state_def)
  have g2: "\<exists>e. update_ui_state ?scr ?wd ?st2 = (?wd, Some e)"
    using update_ui_state_geometry [where st = ?st2 and screens = ?scr and wd = ?wd] h2 by blast
  have h3: "ui_x ?st3 \<noteq> None
      \<and> mss_region_to_qt_region ?scr (ui_x ?st3, ui_y ?st3, ui_w ?st3, ui_h ?st3) = Inr (100, 50, 400, 300)"
    by (simp add: default_ui_state_def example_region)
  have g3: "geometry (fst (update_ui_state ?scr ?wd ?st3)) = (100, 50, 400, 300)"
    using update_ui_state_geometry [where st = ?st3 and screens = ?scr and wd = ?wd
        and r = "(100, 50, 400, 300)"] h3 by blast
  have "geometry ?wd = (0, 0, 640, 480)" by (simp add: initial_widget_def)
  with x1 g1 g2 g3 show ?thesis by simp
qed

subsection \<open>Paging through the overlay images\<close>

lemma py_index_in_range: "0 \<le> i \<Longrightarrow> i < int (length xs) \<Longrightarrow> py_index xs i = Inr (xs ! nat i)"
  by (simp add: py_index_def)

lemma update_overlay_images_ok:
  assumes "overlay_images wd = Some xs" "xs \<noteq> []" "map_pattern_idx wd = Some i" "0 \<le> i" "i < int (length xs)"
  shows "update_overlay_images wd = (wd\<lparr>overlay_image_box := Some (xs ! nat i)\<rparr>, None)"
  using assms by (simp add: update_overlay_images_def py_index_in_range)

lemma update_overlay_images_none:
  assumes "overlay_images wd = None \<or> overlay_images wd = Some []"
  shows "update_overlay_images wd = (wd\<lparr>overlay_images := None, overlay_image_box := None\<rparr>, None)"
  using assms by (auto simp add: update_overlay_images_def)

lemma set_overlay_images_result:
  "snd (set_overlay_images imgs wd) = None
   \<and> paging_invariant (fst (set_overlay_images imgs wd))
   \<and> map_pattern_idx (fst (set_overlay_images imgs wd)) = Some 0
   \<and> overlay_images (fst (set_overlay_images imgs wd)) = (if imgs = Some [] then None else imgs)"
proof (cases "imgs = None \<or> imgs = Some []")
  case True
  then show ?thesis
    by (auto simp add: set_overlay_images_def update_overlay_images_none paging_invariant_def)
next
  case False
  then obtain xs where xs: "imgs = Some xs" "xs \<noteq> []" by auto
  have "update_overlay_images (wd\<lparr>overlay_images := imgs, map_pattern_idx := Some 0\<rparr>)
        = (wd\<lparr>overlay_images := imgs, map_pattern_idx := Some 0, overlay_image_box := Some (xs ! nat 0)\<rparr>, None)"
    using xs by (subst update_overlay_images_ok[where xs = xs and i = 0]) simp_all
  then show ?thesis using xs by (simp add: set_overlay_images_def paging_invariant_def)
qed

lemma next_overlay_image_result:
  assumes "paging_invariant wd" "visible wd" "overlay_images wd = Some xs" 
  shows "\<exists>i. map_pattern_idx wd = Some i \<and> 0 \<le> i \<and> i < int (length xs) \<and>
     next_overlay_image wd =
       (wd\<lparr>map_pattern_idx := Some (if i = int (length xs) - 1 then 0 else i + 1),
           overlay_image_box := Some (xs ! nat (if i = int (length xs) - 1 then 0 else i + 1))\<rparr>, None)"
proof -
  from assms obtain i where i: "map_pattern_idx wd = Some i" "0 \<le> i" "i < int (length xs)" "xs \<noteq> []"
    by (auto simp: paging_invariant_def split: option.splits)
  let ?j = "if i = int (length xs) - 1 then 0 else i + 1"
  have j: "0 \<le> ?j" "?j < int (length xs)" using i by auto
  have "(if i + 1 \<ge> int (length xs) then 0 else i + 1) = ?j" using i by auto
  then have "next_overlay_image wd = update_overlay_images (wd\<lparr>map_pattern_idx := Some ?j\<rparr>)"
    using assms i by (simp add: next_overlay_image_def Let_def)
  also have "\<dots> = (wd\<lparr>map_pattern_idx := Some ?j, overlay_image_box := Some (xs ! nat ?j)\<rparr>, None)"
    using assms i j by (subst update_overlay_images_ok[where xs = xs and i = ?j]) simp_all
  finally show ?thesis using i by blast
qed

lemma last_overlay_image_result:
  assumes "paging_invariant wd" "visible wd" "overlay_images wd = Some xs" 
  shows "\<exists>i. map_pattern_idx wd = Some i \<and> 0 \<le> i \<and> i < int (length xs) \<and>
     last_overlay_image wd =
       (wd\<lparr>map_pattern_idx := Some (if i = 0 then int (length xs) - 1 else i - 1),
           overlay_image_box := Some (xs ! nat (if i = 0 then int (length xs) - 1 else i - 1))\<rparr>, None)"
proof -
  from assms obtain i where i: "map_pattern_idx wd = Some i" "0 \<le> i" "i < int (length xs)" "xs \<noteq> []"
    by (auto simp: paging_invariant_def split: option.splits)
  let ?j = "if i = 0 then int (length xs) - 1 else i - 1"
  have j: "0 \<le> ?j" "?j < int (length xs)" using i by auto
  have "(if i - 1 < 0 then int (length xs) - 1 else i - 1) = ?j" using i by auto
  then have "last_overlay_image wd = update_overlay_images (wd\<lparr>map_pattern_idx := Some ?j\<rparr>)"
    using assms i by (simp add: last_overlay_image_def Let_def)
  also have "\<dots> = (wd\<lparr>map_pattern_idx := Some ?j, overlay_image_box := Some (xs ! nat ?j)\<rparr>, None)"
    using assms i j by (subst update_overlay_images_ok[where xs = xs and i = ?j]) simp_all
  finally show ?thesis using i by blast
qed

lemma paging_noop:
  "\<not> visible wd \<or> overlay_images wd = None \<Longrightarrow> next_overlay_image wd = (wd, None) \<and> last_overlay_image wd = (wd, None)"
  by (auto simp: next_overlay_image_def last_overlay_image_def)

text \<open>
  C10: setting an image list always succeeds, resets the page index to 0, turns an
  empty list into none and establishes the invariant; under the invariant both paging
  operations succeed and keep it; when the overlay is visible and images are stored,
  the next page after the last image is page 0 and the page before page 0 is the last
  image; and both operations do nothing when the overlay is not visible or no images
  are stored.
\<close>

theorem paging_invariant_maintained:
  "(snd (set_overlay_images imgs wd) = None
      \<and> paging_invariant (fst (set_overlay_images imgs wd))
      \<and> map_pattern_idx (fst (set_overlay_images imgs wd)) = Some 0
      \<and> overlay_images (fst (set_overlay_images imgs wd)) = (if imgs = Some [] then None else imgs))
   \<and> (paging_invariant wd \<longrightarrow>
        snd (next_overlay_image wd) = None \<and> paging_invariant (fst (next_overlay_image wd))
      \<and> snd (last_overlay_image wd) = None \<and> paging_invariant (fst (last_overlay_image wd)))
   \<and> (paging_invariant wd \<and> visible wd \<and> overlay_images wd = Some xs \<and> map_pattern_idx wd = Some i \<longrightarrow>
        overlay_images (fst (next_overlay_image wd)) = Some xs
      \<and> map_pattern_idx (fst (next_overlay_image wd)) = Some (if i = int (length xs) - 1 then 0 else i + 1)
      \<and> overlay_images (fst (last_overlay_image wd)) = Some xs
      \<and> map_pattern_idx (fst (last_overlay_image wd)) = Some (if i = 0 then int (length xs) - 1 else i - 1))
   \<and> (\<not> visible wd \<or> overlay_images wd = None \<longrightarrow>
        next_overlay_image wd = (wd, None) \<and> last_overlay_image wd = (wd, None))"
proof (intro conjI impI)
  show "snd (set_overlay_images imgs wd) = None"
    "paging_invariant (fst (set_overlay_images imgs wd))"
    "map_pattern_idx (fst (set_overlay_images imgs wd)) = Some 0"
    "overlay_images (fst (set_overlay_images imgs wd)) = (if imgs = Some [] then None else imgs)"
    using set_overlay_images_result[of imgs wd] by simp_all
next
  assume inv: "paging_invariant wd"
  show "snd (next_overlay_image wd) = None" "paging_invariant (fst (next_overlay_image wd))"
  proof -
    consider "\<not> visible wd \<or> overlay_images wd = None" | ys where "visible wd" "overlay_images wd = Some ys"
      by (cases "overlay_images wd") auto
    then have "snd (next_overlay_image wd) = None \<and> paging_invariant (fst (next_overlay_image wd))"
    proof cases
      case 1
      then show ?thesis using inv paging_noop[of wd] by simp
    next
      case 2
      then show ?thesis
        using next_overlay_image_result[OF inv 2] inv
        by (auto simp: paging_invariant_def)
    qed
    then show "snd (next_overlay_image wd) = None" "paging_invariant (fst (next_overlay_image wd))"
      by simp_all
  qed
  show "snd (last_overlay_image wd) = None" "paging_invariant (fst (last_overlay_image wd))"
  proof -
    consider "\<not> visible wd \<or> overlay_images wd = None" | ys where "visible wd" "overlay_images wd = Some ys"
      by (cases "overlay_images wd") auto
    then have "snd (last_overlay_image wd) = None \<and> paging_invariant (fst (last_overlay_image wd))"
    proof cases
      case 1
      then show ?thesis using inv paging_noop[of wd] by simp
    next
      case 2
      then show ?thesis
        using last_overlay_image_result[OF inv 2] inv
        by (auto simp: paging_invariant_def)
    qed
    then show "snd (last_overlay_image wd) = None" "paging_invariant (fst (last_overlay_image wd))"
      by simp_all
  qed
next
  assume h: "paging_invariant wd \<and> visible wd \<and> overlay_images wd = Some xs \<and> map_pattern_idx wd = Some i"
  then have a: "paging_invariant wd" "visible wd" "overlay_images wd = Some xs" "map_pattern_idx wd = Some i"
    by simp_all
  show "overlay_images (fst (next_overlay_image wd)) = Some xs"
    "map_pattern_idx (fst (next_overlay_image wd)) = Some (if i = int (length xs) - 1 then 0 else i + 1)"
    using next_overlay_image_result[OF a(1,2,3)] a by auto
  show "overlay_images (fst (last_overlay_image wd)) = Some xs"
    "map_pattern_idx (fst (last_overlay_image wd)) = Some (if i = 0 then int (length xs) - 1 else i - 1)"
    using last_overlay_image_result[OF a(1,2,3)] a by auto
next
  assume "\<not> visible wd \<or> overlay_images wd = None"
  then show "next_overlay_image wd = (wd, None)" "last_overlay_image wd = (wd, None)"
    using paging_noop[of wd] by simp_all
qed

theorem paging_invariant_maintained_witness:
  "paging_invariant ((initial_widget (0, 0, 640, 480) [])\<lparr>overlay_images := Some [7, 8 :: nat], map_pattern_idx := Some 1\<rparr>)
   \<and> map_pattern_idx (fst (next_overlay_image
         ((initial_widget (0, 0, 640, 480) [])\<lparr>overlay_images := Some [7, 8 :: nat], map_pattern_idx := Some 1\<rparr>)))
       = Some 0
   \<and> map_pattern_idx (fst (last_overlay_image
         ((initial_widget (0, 0, 640, 480) [])\<lparr>overlay_images := Some [7, 8 :: nat], map_pattern_idx := Some 1\<rparr>)))
       = Some 0
   \<and> paging_invariant (fst (next_overlay_image
         ((initial_widget (0, 0, 640, 480) [])\<lparr>overlay_images := Some [7, 8 :: nat], map_pattern_idx := Some 1\<rparr>)))"
proof -
  let ?wd = "(initial_widget (0, 0, 640, 480) [])\<lparr>overlay_images := Some [7, 8 :: nat], map_pattern_idx := Some 1\<rparr>"
  have inv: "paging_invariant ?wd" by (simp add: paging_invariant_def initial_widget_def)
  have h: "paging_invariant ?wd \<and> visible ?wd \<and> overlay_images ?wd = Some [7, 8] \<and> map_pattern_idx ?wd = Some 1"
    using inv by (simp add: initial_widget_def)
  show ?thesis
    using paging_invariant_maintained [where wd = ?wd and xs = "[7, 8]" and i = 1] h by simp
qed

subsection \<open>Opacity easing\<close>

lemma at_target_stays: "ease_opacity store (1, 0) (1, 0) = ((1, 0), (1, 0))"
  by code_simp

lemma opacity_after_at_target:
  assumes "opacity_after store (1, 0) (0, 0) m = (1, 0)"
  shows "opacity_after store (1, 0) (0, 0) (k + m) = (1, 0)"
proof (induction k)
  case 0
  show ?case using assms by simp
next
  case (Suc k)
  have "opacity_after store (1, 0) (0, 0) (Suc (k + m)) = (1, 0)"
    using Suc by (simp only: opacity_after.simps at_target_stays snd_conv)
  then show ?case by (simp only: add_Suc)
qed

lemma opacity_after_follows:
  assumes "vs ! 0 = (0, 0)"
    and "\<forall>i\<in>{0..<m}. snd (ease_opacity store (1, 0) (vs ! i)) = vs ! Suc i"
  shows "n \<le> m \<Longrightarrow> opacity_after store (1, 0) (0, 0) n = vs ! n"
proof (induction n)
  case 0
  show ?case using assms(1) by simp
next
  case (Suc n)
  then have "opacity_after store (1, 0) (0, 0) n = vs ! n" by simp
  moreover have "snd (ease_opacity store (1, 0) (vs ! n)) = vs ! Suc n"
    using assms(2) Suc.prems by simp
  ultimately show ?case by (simp only: opacity_after.simps)
qed

lemma eases_to_targetI:
  assumes v0: "vs ! 0 = (0, 0)" and v7: "vs ! 7 = (1, 0)"
    and steps: "\<forall>i\<in>{0..<7}. snd (ease_opacity store (1, 0) (vs ! i)) = vs ! Suc i"
    and early: "\<forall>i\<in>{0..<7}. f_le (vs ! i) (1, 0) \<and> f_less (vs ! i) (vs ! Suc i)"
    and gap: "\<forall>i\<in>{0..<6}. f_less (f_literal 1 100) (f_abs (f_sub (1, 0) (vs ! i)))"
    and snap: "f_less (0, 0) (f_abs (f_sub (1, 0) (vs ! 6)))"
       "f_le (f_abs (f_sub (1, 0) (vs ! 6))) (f_literal 1 100)"
  shows "eases_to_target store"
proof -
  let ?x = "opacity_after store (1, 0) (0, 0)"
  have one: "f_le (1, 0) (1, 0)" "\<not> f_less (1, 0) (1, 0)" by code_simp+
  have x: "?x n = vs ! n" if "n \<le> 7" for n
    using opacity_after_follows[OF v0 steps that] .
  have x7: "?x 7 = (1, 0)" using x[of 7] v7 by simp
  have late: "?x n = (1, 0)" if "7 \<le> n" for n
    using opacity_after_at_target[OF x7, of "n - 7"] that by simp
  have a: "f_le (?x n) (1, 0)" for n
  proof (cases "n < 7")
    case True then show ?thesis using early x[of n] by simp
  next
    case False then show ?thesis using late[of n] one by simp
  qed
  have b: "f_less (?x n) (1, 0) \<longrightarrow> f_less (?x n) (?x (Suc n))" for n
  proof (cases "n < 7")
    case True
    then have "?x n = vs ! n" "?x (Suc n) = vs ! Suc n" using x[of n] x[of "Suc n"] by simp_all
    then show ?thesis using early True by simp
  next
    case False then show ?thesis using late[of n] one by simp
  qed
  have c: "n < 6 \<longrightarrow> f_less (f_literal 1 100) (f_abs (f_sub (1, 0) (?x n)))" for n
    using gap x[of n] by simp
  have z: "?x 0 = (0, 0)" by simp
  have s: "f_less (0, 0) (f_abs (f_sub (1, 0) (?x 6)))"
       "f_le (f_abs (f_sub (1, 0) (?x 6))) (f_literal 1 100)"
    using snap x[of 6] by simp_all
  show ?thesis
    unfolding eases_to_target_def Let_def
    using z a b c s late by blast
qed

lemma eases_to_target_exact_store: "eases_to_target exact_store"
proof (rule eases_to_targetI[where vs = exact_values])
  show "exact_values ! 0 = (0, 0)" "exact_values ! 7 = (1, 0)" by code_simp+
  show "\<forall>i\<in>{0..<7}. snd (ease_opacity exact_store (1, 0) (exact_values ! i)) = exact_values ! Suc i"
    by code_simp
  show "\<forall>i\<in>{0..<7}. f_le (exact_values ! i) (1, 0) \<and> f_less (exact_values ! i) (exact_values ! Suc i)"
    by code_simp
  show "\<forall>i\<in>{0..<6}. f_less (f_literal 1 100) (f_abs (f_sub (1, 0) (exact_values ! i)))"
    by code_simp
  show "f_less (0, 0) (f_abs (f_sub (1, 0) (exact_values ! 6)))"
       "f_le (f_abs (f_sub (1, 0) (exact_values ! 6))) (f_literal 1 100)"
    by code_simp+
qed

lemma eases_to_target_qt_store: "eases_to_target qt_store"
proof (rule eases_to_targetI[where vs = qt_values])
  show "qt_values ! 0 = (0, 0)" "qt_values ! 7 = (1, 0)" by code_simp+
  show "\<forall>i\<in>{0..<7}. snd (ease_opacity qt_store (1, 0) (qt_values ! i)) = qt_values ! Suc i"
    by code_simp
  show "\<forall>i\<in>{0..<7}. f_le (qt_values ! i) (1, 0) \<and> f_less (qt_values ! i) (qt_values ! Suc i)"
    by code_simp
  show "\<forall>i\<in>{0..<6}. f_less (f_literal 1 100) (f_abs (f_sub (1, 0) (qt_values ! i)))"
    by code_simp
  show "f_less (0, 0) (f_abs (f_sub (1, 0) (qt_values ! 6)))"
       "f_le (f_abs (f_sub (1, 0) (qt_values ! 6))) (f_literal 1 100)"
    by code_simp+
qed

text \<open>
  The window opacity after \<open>n\<close> timer events is \<open>opacity_after\<close>; a timer event
  leaves the target as it is.
\<close>

lemma timerEvent_opacity:
  "window_opacity (timerEvent store wd) = snd (ease_opacity store (target_opacity wd) (window_opacity wd))
   \<and> target_opacity (timerEvent store wd) = target_opacity wd"
  by (simp add: timerEvent_def Let_def split: prod.splits)

lemma timerEvent_iterated:
  "window_opacity ((timerEvent store ^^ n) wd) = opacity_after store (target_opacity wd) (window_opacity wd) n
   \<and> target_opacity ((timerEvent store ^^ n) wd) = target_opacity wd"
  by (induction n) (simp_all add: timerEvent_opacity)

text \<open>
  C8: with step ratio 0.6 and snap threshold 0.01, starting from real opacity 0.0 with
  target opacity 1.0 held fixed, the real opacity strictly increases across ticks while
  it is below the target, never exceeds 1.0, and at the seventh tick is set exactly to
  1.0, where it stays; the snap applies at the first tick at which the remaining gap
  is at most 0.01. This holds for a toolkit that reports the opacity it was given and
  for one that stores it in eight bits.
\<close>

theorem opacity_easing_reaches_target:
  "eases_to_target exact_store \<and> eases_to_target qt_store
   \<and> window_opacity ((timerEvent store ^^ n) wd)
       = opacity_after store (target_opacity wd) (window_opacity wd) n"
  using eases_to_target_exact_store eases_to_target_qt_store timerEvent_iterated [where store = store and n = n and wd = wd]
  by simp

theorem opacity_easing_reaches_target_witness:
  "opacity_after exact_store (1, 0) (0, 0) 7 = (1, 0)
   \<and> opacity_after qt_store (1, 0) (0, 0) 7 = (1, 0)
   \<and> opacity_after exact_store (1, 0) (0, 0) 1 = f_literal 6 10
   \<and> f_less (opacity_after exact_store (1, 0) (0, 0) 1) (1, 0)
   \<and> f_less (opacity_after exact_store (1, 0) (0, 0) 1) (opacity_after exact_store (1, 0) (0, 0) (Suc 1))"
proof -
  have e: "eases_to_target exact_store" and q: "eases_to_target qt_store"
    using opacity_easing_reaches_target [where store = exact_store and n = 0
        and wd = "initial_widget (0, 0, 640, 480) ([] :: nat list)"]
    by simp_all
  have e7: "opacity_after exact_store (1, 0) (0, 0) 7 = (1, 0)"
    using e unfolding eases_to_target_def Let_def by auto
  have q7: "opacity_after qt_store (1, 0) (0, 0) 7 = (1, 0)"
    using q unfolding eases_to_target_def Let_def by auto
  have x1: "opacity_after exact_store (1, 0) (0, 0) 1 = f_literal 6 10" by code_simp
  have below: "f_less (f_literal 6 10) (1, 0)" by code_simp
  have "f_less (opacity_after exact_store (1, 0) (0, 0) 1) (opacity_after exact_store (1, 0) (0, 0) (Suc 1))"
    using e below x1 unfolding eases_to_target_def Let_def by metis
  with e7 q7 x1 below show ?thesis by simp
qed

section \<open>Properties of the release version manager\<close>

subsection \<open>Mapping a tag to a version\<close>

lemma dot_not_digit [simp]: "\<not> is_digit (CHR ''.'')"
  by (simp add: is_digit_def)

lemma split_dots_nonempty [simp]: "split_dots s \<noteq> []"
  by (induction s) (auto split: list.splits)

lemma digits_dots_split:
  "digits_dots seen s \<longleftrightarrow>
     (case split_dots s of [] \<Rightarrow> False
      | g # gs \<Rightarrow> (seen \<or> g \<noteq> []) \<and> list_all is_digit g \<and> list_all is_digits gs)"
proof (induction s arbitrary: seen)
  case Nil
  show ?case by simp
next
  case (Cons c cs)
  obtain g gs where sp: "split_dots cs = g # gs"
    using split_dots_nonempty[of cs] by (cases "split_dots cs") auto
  show ?case
  proof (cases "is_digit c")
    case True
    then have "c \<noteq> CHR ''.''" by auto
    then show ?thesis using True Cons[of True] sp by simp
  next
    case False
    show ?thesis
    proof (cases "c = CHR ''.''")
      case True
      then show ?thesis using Cons[of False] sp by (auto simp: is_digits_def)
    next
      case nd: False
      then show ?thesis using False sp by simp
    qed
  qed
qed

lemma version_fullmatch_iff: "version_fullmatch s \<longleftrightarrow> digits_separated_by_dots s"
proof -
  obtain g gs where sp: "split_dots s = g # gs"
    using split_dots_nonempty[of s] by (cases "split_dots s") auto
  show ?thesis
    unfolding version_fullmatch_def digits_separated_by_dots_def digits_dots_split sp
    by (auto simp: is_digits_def)
qed

lemma digits_dots_chars: "digits_dots seen s \<Longrightarrow> c \<in> set s \<Longrightarrow> is_digit c \<or> c = CHR ''.''"
  by (induction s arbitrary: seen) (auto split: if_splits)

lemma digits_dots_hd: "digits_dots False s \<Longrightarrow> s \<noteq> [] \<and> is_digit (hd s)"
  by (cases s) (auto split: if_splits)

lemma digits_dots_last: "digits_dots seen s \<Longrightarrow> s \<noteq> [] \<Longrightarrow> is_digit (last s)"
proof (induction s arbitrary: seen)
  case Nil
  then show ?case by simp
next
  case (Cons c cs)
  show ?case
  proof (cases "cs = []")
    case True
    then show ?thesis using Cons.prems by (auto split: if_splits)
  next
    case False
    then show ?thesis using Cons by (auto split: if_splits)
  qed
qed

lemma digit_not_space: "is_digit c \<Longrightarrow> \<not> is_space c"
  by (auto simp: is_digit_def is_space_def)

lemma strip_padded:
  assumes "list_all is_space ws1" "list_all is_space ws2" "s \<noteq> []" "\<not> is_space (hd s)" "\<not> is_space (last s)"
  shows "strip (ws1 @ s @ ws2) = s"
proof -
  have a: "dropWhile is_space (ws1 @ s @ ws2) = s @ ws2"
    using assms by (cases s) (auto simp: dropWhile_append list_all_iff)
  have "dropWhile is_space (rev (s @ ws2)) = rev s"
    using assms by (cases "rev s") (auto simp: dropWhile_append list_all_iff last_rev hd_rev)
  then show ?thesis by (simp add: strip_def a)
qed

lemma labels_letters: "\<forall>q\<in>set LABELS. list_all is_lower_letter q"
  by (simp add: LABELS_def is_lower_letter_def)

lemma lower_char_digit: "is_digit c \<Longrightarrow> lower_char c = c"
  by (auto simp: is_digit_def lower_char_def Let_def)

lemma lower_char_dot: "lower_char (CHR ''.'') = CHR ''.''"
  by (simp add: lower_char_def)

lemma letter_not_digit_dot:
  assumes "is_lower_letter (lower_char c)"
  shows "\<not> is_digit c \<and> c \<noteq> CHR ''.''"
proof (intro conjI notI)
  assume "is_digit c"
  then have "lower_char c = c" "is_digit c" by (simp_all add: lower_char_digit)
  with assms show False by (auto simp: is_digit_def is_lower_letter_def)
next
  assume "c = CHR ''.''"
  with assms show False by (simp add: lower_char_dot is_lower_letter_def)
qed

lemma match_dot_num_iff:
  "match_dot_num r = Some num \<longleftrightarrow>
     (is_digits r \<and> num = r) \<or> (r \<noteq> [] \<and> hd r = CHR ''.'' \<and> is_digits (tl r) \<and> num = tl r)"
  by (cases r) (auto simp: match_dot_num_def is_digits_def Let_def)

lemma match_dot_num_letter:
  assumes "\<not> is_digit c" "c \<noteq> CHR ''.''"
  shows "match_dot_num (c # cs) = None"
  using assms by (simp add: match_dot_num_def)

lemma match_dot_num_Some_hd:
  "match_dot_num r = Some num \<Longrightarrow> r \<noteq> [] \<and> (is_digit (hd r) \<or> hd r = CHR ''.'')"
  by (cases r) (auto simp: match_dot_num_def Let_def split: if_splits)

lemma lower_length [simp]: "length (lower s) = length s"
  by (simp add: lower_def)

lemma lower_append: "lower (a @ b) = lower a @ lower b"
  by (simp add: lower_def)

lemma lower_take: "lower (take n s) = take n (lower s)"
  by (simp add: lower_def take_map)

lemma match_alternatives_accepts:
  assumes letters: "\<forall>q\<in>set ls. list_all is_lower_letter q"
    and p: "lower l \<in> set ls"
    and num: "match_dot_num r = Some num"
  shows "match_alternatives ls (l @ r) = Some (l, num)"
  using letters p
proof (induction ls)
  case Nil
  then show ?case by simp
next
  case (Cons q ls)
  from num have r: "r \<noteq> []" "is_digit (hd r) \<or> hd r = CHR ''.''"
    using match_dot_num_Some_hd by blast+
  have lp: "list_all is_lower_letter (lower l)" using Cons.prems by (auto simp: list_all_iff)
  let ?s = "l @ r"
  show ?case
  proof (cases "length q \<le> length ?s \<and> lower (take (length q) ?s) = q")
    case False
    then have "q \<noteq> lower l"
      by (auto simp: lower_take lower_append)
    then have "lower l \<in> set ls" using Cons.prems by simp
    then have "match_alternatives ls ?s = Some (l, num)" using Cons by simp
    then show ?thesis using False by auto
  next
    case True
    consider "length q < length l" | "length q = length l" | "length l < length q" by linarith
    then show ?thesis
    proof cases
      case 1
      then obtain c cs where d: "drop (length q) l = c # cs" by (cases "drop (length q) l") auto
      then have "c \<in> set l" by (metis in_set_dropD list.set_intros(1))
      then have "is_lower_letter (lower_char c)" using lp by (auto simp: list_all_iff lower_def)
      then have "match_dot_num (drop (length q) ?s) = None"
        using 1 d letter_not_digit_dot match_dot_num_letter by simp
      moreover have "q \<noteq> lower l" using 1 by auto
      then have "lower l \<in> set ls" using Cons.prems by simp
      then have "match_alternatives ls ?s = Some (l, num)" using Cons by simp
      ultimately show ?thesis using True by simp
    next
      case 2
      then show ?thesis using True num by simp
    next
      case 3
      obtain c cs where rc: "r = c # cs" using r by (cases r) auto
      have "q ! length l = lower ?s ! length l"
        using True 3 by (metis lower_take nth_take)
      also have "\<dots> = lower_char c"
        by (simp add: lower_def rc nth_append)
      finally have "lower_char c \<in> set q" using 3 by (metis nth_mem)
      then have "is_lower_letter (lower_char c)" using Cons.prems by (auto simp: list_all_iff)
      then have "\<not> is_digit c \<and> c \<noteq> CHR ''.''" by (rule letter_not_digit_dot)
      then show ?thesis using r rc by simp
    qed
  qed
qed

lemma suffix_fullmatch_accepts:
  assumes "lower l \<in> set LABELS" "match_dot_num r = Some num"
  shows "suffix_fullmatch (l @ r) = Some (l, num)"
  unfolding suffix_fullmatch_def
  using match_alternatives_accepts[OF labels_letters assms] .

lemma match_alternatives_Some:
  "match_alternatives ls s = Some (m, num) \<Longrightarrow>
     \<exists>p\<in>set ls. length p \<le> length s \<and> m = take (length p) s \<and> lower m = p
        \<and> match_dot_num (drop (length p) s) = Some num"
  by (induction ls) (auto split: if_splits option.splits)

lemma suffix_fullmatch_Some:
  assumes "suffix_fullmatch s = Some (m, num)"
  shows "lower m \<in> set LABELS \<and> (\<exists>r. s = m @ r \<and> match_dot_num r = Some num)"
proof -
  obtain p where p: "p \<in> set LABELS" "m = take (length p) s" "lower m = p"
      "match_dot_num (drop (length p) s) = Some num"
    using match_alternatives_Some[OF assms[unfolded suffix_fullmatch_def]] by blast
  have "s = m @ drop (length p) s" using p(2) by simp
  then have "\<exists>r. s = m @ r \<and> match_dot_num r = Some num" using p(4) by (rule_tac x = "drop (length p) s" in exI) simp
  moreover have "lower m \<in> set LABELS" using p(1,3) by simp
  ultimately show ?thesis by simp
qed

lemma supported_suffix_iff: "supported_suffix s \<longleftrightarrow> suffix_fullmatch s \<noteq> None"
proof
  assume a: "supported_suffix s"
  let ?P = "\<lambda>c. \<not> is_digit c \<and> c \<noteq> CHR ''.''"
  let ?l = "takeWhile ?P s" and ?r = "dropWhile ?P s"
  from a have l: "lower ?l \<in> set LABELS"
    and r: "is_digits ?r \<or> (?r \<noteq> [] \<and> hd ?r = CHR ''.'' \<and> is_digits (tl ?r))"
    by (simp_all add: supported_suffix_def Let_def)
  from r obtain num where n: "match_dot_num ?r = Some num"
    using match_dot_num_iff by blast
  have "suffix_fullmatch (?l @ ?r) = Some (?l, num)"
    by (rule suffix_fullmatch_accepts[OF l n])
  then show "suffix_fullmatch s \<noteq> None" by (simp only: takeWhile_dropWhile_id) simp
next
  assume "suffix_fullmatch s \<noteq> None"
  then obtain m num where mn: "suffix_fullmatch s = Some (m, num)" by auto
  then obtain r where r: "lower m \<in> set LABELS" "s = m @ r" "match_dot_num r = Some num"
    using suffix_fullmatch_Some by blast
  let ?P = "\<lambda>c. \<not> is_digit c \<and> c \<noteq> CHR ''.''"
  have "list_all is_lower_letter (lower m)" using labels_letters r(1) by blast
  then have pm: "\<And>c. c \<in> set m \<Longrightarrow> ?P c"
    using letter_not_digit_dot by (auto simp: list_all_iff lower_def)
  have hr: "r \<noteq> []" "\<not> ?P (hd r)" using match_dot_num_Some_hd[OF r(3)] by auto
  then obtain c cs where rc: "r = c # cs" "\<not> ?P c" by (cases r) auto
  have t: "takeWhile ?P s = m" unfolding r(2) rc(1) using pm rc(2) by (subst takeWhile_append2) auto
  have d: "dropWhile ?P s = r" unfolding r(2) rc(1) using pm rc(2) by (subst dropWhile_append2) auto
  show "supported_suffix s"
    unfolding supported_suffix_def Let_def t d using r(1,3) match_dot_num_iff by blast
qed

lemma tag_to_pep440_no_v:
  assumes "\<not> startswith (tag_body tag0) ''v'' \<or> length (tag_body tag0) < 2"
  shows "tag_to_pep440 tag0 = Inl (VersionError TagMustStartWithV)"
  using assms by (auto simp: tag_to_pep440_def Let_def)

lemma tag_to_pep440_release:
  assumes "tag_body tag0 = CHR ''v'' # raw" "raw \<noteq> []" "CHR ''-'' \<notin> set raw"
  shows "tag_to_pep440 tag0 =
     (if digits_separated_by_dots raw then Inr (raw, False) else Inl (VersionError ReleaseTagMalformed))"
  using assms by (cases raw) (auto simp: tag_to_pep440_def Let_def startswith_def version_fullmatch_iff)

lemma tag_to_pep440_prerelease:
  assumes "tag_body tag0 = CHR ''v'' # raw" "CHR ''-'' \<in> set raw"
  shows "tag_to_pep440 tag0 =
     (let base = takeWhile (\<lambda>c. c \<noteq> CHR ''-'') raw;
          suffix = drop 1 (dropWhile (\<lambda>c. c \<noteq> CHR ''-'') raw)
      in if \<not> digits_separated_by_dots base then Inl (VersionError PrereleaseBaseMalformed)
         else
           (case suffix_fullmatch suffix of
              None \<Rightarrow> Inl (VersionError UnsupportedSuffix)
            | Some (matched, num) \<Rightarrow>
                (let label = lower matched
                 in if label \<in> {''alpha'', ''a''} then Inr (base @ ''a'' @ num, True)
                    else if label \<in> {''beta'', ''b''} then Inr (base @ ''b'' @ num, True)
                    else if label = ''rc'' then Inr (base @ ''rc'' @ num, True)
                    else if label \<in> {''pre'', ''preview''} then Inr (base @ ''rc'' @ num, True)
                    else if label = ''dev'' then Inr (base @ ''.dev'' @ num, True)
                    else if label = ''post'' then Inr (base @ ''.post'' @ num, True)
                    else Inl (VersionError UnhandledLabel))))"
proof -
  have "raw \<noteq> []" using assms(2) by auto
  then have "\<not> (\<not> startswith (CHR ''v'' # raw) ''v'' \<or> length (CHR ''v'' # raw) < 2)"
    by (cases raw) (auto simp: startswith_def)
  moreover have "drop 1 (CHR ''v'' # raw) = raw" by simp
  ultimately show ?thesis
    using assms(2) unfolding tag_to_pep440_def Let_def assms(1) version_fullmatch_iff
    by (simp only: if_False if_True not_True_eq_False not_False_eq_True)
qed

lemma dash_not_in_base:
  assumes "digits_separated_by_dots base"
  shows "CHR ''-'' \<notin> set base"
proof
  assume "CHR ''-'' \<in> set base"
  moreover have "digits_dots False base" using assms by (simp add: version_fullmatch_iff[symmetric] version_fullmatch_def)
  ultimately have "is_digit (CHR ''-'') \<or> CHR ''-'' = CHR ''.''" by (rule digits_dots_chars[rotated])
  then show False by (simp add: is_digit_def)
qed

lemma base_ends:
  assumes "digits_separated_by_dots base"
  shows "base \<noteq> []" "is_digit (last base)"
proof -
  have d: "digits_dots False base" using assms by (simp add: version_fullmatch_iff[symmetric] version_fullmatch_def)
  show "base \<noteq> []" using digits_dots_hd[OF d] by simp
  then show "is_digit (last base)" using digits_dots_last[OF d] by simp
qed

lemma tag_body_padded:
  assumes "list_all is_space ws1" "list_all is_space ws2" "pre = [] \<or> pre = ''refs/tags/''"
    "X \<noteq> []" "\<not> is_space (last X)"
  shows "tag_body (ws1 @ pre @ ''v'' @ X @ ws2) = CHR ''v'' # X"
proof -
  let ?s = "pre @ CHR ''v'' # X"
  have "?s \<noteq> []" by simp
  moreover have "\<not> is_space (hd ?s)" using assms(3) by (auto simp: is_space_def)
  moreover have "\<not> is_space (last ?s)" using assms(4,5) by simp
  ultimately have "strip (ws1 @ ?s @ ws2) = ?s" using assms(1,2) by (intro strip_padded)
  then have s: "strip (ws1 @ pre @ ''v'' @ X @ ws2) = ?s" by simp
  show ?thesis unfolding tag_body_def s Let_def using assms(3) by (auto simp: startswith_def)
qed

lemma parts_general:
  assumes "CHR ''-'' \<notin> set base"
  shows "takeWhile (\<lambda>c. c \<noteq> CHR ''-'') (base @ ''-'' @ suffix) = base"
    and "drop 1 (dropWhile (\<lambda>c. c \<noteq> CHR ''-'') (base @ ''-'' @ suffix)) = suffix"
  using assms by (induction base) auto

lemma prerelease_parts:
  assumes "digits_separated_by_dots base"
  shows "takeWhile (\<lambda>c. c \<noteq> CHR ''-'') (base @ ''-'' @ suffix) = base"
    and "drop 1 (dropWhile (\<lambda>c. c \<noteq> CHR ''-'') (base @ ''-'' @ suffix)) = suffix"
  using parts_general[OF dash_not_in_base[OF assms]] by simp_all

lemma tag_to_pep440_labelled:
  assumes ws: "list_all is_space ws1" "list_all is_space ws2"
    and pre: "pre = [] \<or> pre = ''refs/tags/''"
    and base: "digits_separated_by_dots base"
    and num: "is_digits num" and dot: "dot = [] \<or> dot = ''.''"
    and l: "lower l \<in> set LABELS"
  shows "tag_to_pep440 (ws1 @ pre @ ''v'' @ base @ ''-'' @ l @ dot @ num @ ws2) =
     (if lower l \<in> {''alpha'', ''a''} then Inr (base @ ''a'' @ num, True)
      else if lower l \<in> {''beta'', ''b''} then Inr (base @ ''b'' @ num, True)
      else if lower l = ''rc'' then Inr (base @ ''rc'' @ num, True)
      else if lower l \<in> {''pre'', ''preview''} then Inr (base @ ''rc'' @ num, True)
      else if lower l = ''dev'' then Inr (base @ ''.dev'' @ num, True)
      else Inr (base @ ''.post'' @ num, True))"
proof -
  let ?suffix = "l @ dot @ num"
  let ?raw = "base @ ''-'' @ ?suffix"
  have n: "num \<noteq> []" "list_all is_digit num" using num by (simp_all add: is_digits_def)
  then have "is_digit (last num)" by (simp add: list_all_iff)
  then have "\<not> is_space (last ?raw)" using n(1) digit_not_space by simp
  then have body: "tag_body (ws1 @ pre @ ''v'' @ ?raw @ ws2) = CHR ''v'' # ?raw"
    using ws pre by (intro tag_body_padded) simp_all
  have dash: "CHR ''-'' \<in> set ?raw" by simp
  have m: "match_dot_num (dot @ num) = Some num"
    using dot num by (auto simp: match_dot_num_iff)
  have sf: "suffix_fullmatch ?suffix = Some (l, num)"
    by (rule suffix_fullmatch_accepts[OF l m])
  have post: "lower l = ''post''"
    if "lower l \<notin> {''alpha'', ''a''}" "lower l \<notin> {''beta'', ''b''}" "lower l \<noteq> ''rc''"
       "lower l \<notin> {''pre'', ''preview''}" "lower l \<noteq> ''dev''"
    using l that by (simp add: LABELS_def)
  have "tag_to_pep440 (ws1 @ pre @ ''v'' @ ?raw @ ws2) =
     (if lower l \<in> {''alpha'', ''a''} then Inr (base @ ''a'' @ num, True)
      else if lower l \<in> {''beta'', ''b''} then Inr (base @ ''b'' @ num, True)
      else if lower l = ''rc'' then Inr (base @ ''rc'' @ num, True)
      else if lower l \<in> {''pre'', ''preview''} then Inr (base @ ''rc'' @ num, True)
      else if lower l = ''dev'' then Inr (base @ ''.dev'' @ num, True)
      else if lower l = ''post'' then Inr (base @ ''.post'' @ num, True)
      else Inl (VersionError UnhandledLabel))"
    unfolding tag_to_pep440_prerelease[OF body dash] Let_def prerelease_parts[OF base] sf
    using base by simp
  then show ?thesis using post by (simp add: append_assoc)
qed

lemma tag_to_pep440_plain:
  assumes ws: "list_all is_space ws1" "list_all is_space ws2"
    and pre: "pre = [] \<or> pre = ''refs/tags/''"
    and base: "digits_separated_by_dots base"
  shows "tag_to_pep440 (ws1 @ pre @ ''v'' @ base @ ws2) = Inr (base, False)"
proof -
  have "\<not> is_space (last base)" using base_ends[OF base] digit_not_space by blast
  then have body: "tag_body (ws1 @ pre @ ''v'' @ base @ ws2) = CHR ''v'' # base"
    using ws pre base_ends(1)[OF base] by (intro tag_body_padded) simp_all
  show ?thesis
    using tag_to_pep440_release[OF body base_ends(1)[OF base] dash_not_in_base[OF base]] base by simp
qed

lemma tag_to_pep440_examples:
  "tag_to_pep440 ''1.2.3'' = Inl (VersionError TagMustStartWithV)"
  "tag_to_pep440 ''v'' = Inl (VersionError TagMustStartWithV)"
  "tag_to_pep440 ''v1.2.3-xyz.1'' = Inl (VersionError UnsupportedSuffix)"
  "tag_to_pep440 ''va.b.c'' = Inl (VersionError ReleaseTagMalformed)"
  "tag_to_pep440 '' v1.2.3'' = Inr (''1.2.3'', False)"
  by code_simp+

text \<open>
  C1: a tag that is, between optional white space and after an optional
  \<^verbatim>\<open>refs/tags/\<close>, the letter v and digits separated by dots maps to these digits
  and dots, not a pre-release; followed by a hyphen, a label in any case, an optional
  dot and digits it maps to the base, the normalised label and the digits, and is a
  pre-release, also for the label post.
\<close>

theorem tag_to_pep440_maps_accepted_tags:
  assumes "list_all is_space ws1" "list_all is_space ws2"
    and "pre = [] \<or> pre = ''refs/tags/''"
    and "digits_separated_by_dots base"
    and "is_digits num" and "dot = [] \<or> dot = ''.''"
  shows "tag_to_pep440 (ws1 @ pre @ ''v'' @ base @ ws2) = Inr (base, False)
    \<and> (lower l \<in> {''alpha'', ''a''} \<longrightarrow>
         tag_to_pep440 (ws1 @ pre @ ''v'' @ base @ ''-'' @ l @ dot @ num @ ws2) = Inr (base @ ''a'' @ num, True))
    \<and> (lower l \<in> {''beta'', ''b''} \<longrightarrow>
         tag_to_pep440 (ws1 @ pre @ ''v'' @ base @ ''-'' @ l @ dot @ num @ ws2) = Inr (base @ ''b'' @ num, True))
    \<and> (lower l = ''rc'' \<longrightarrow>
         tag_to_pep440 (ws1 @ pre @ ''v'' @ base @ ''-'' @ l @ dot @ num @ ws2) = Inr (base @ ''rc'' @ num, True))
    \<and> (lower l \<in> {''pre'', ''preview''} \<longrightarrow>
         tag_to_pep440 (ws1 @ pre @ ''v'' @ base @ ''-'' @ l @ dot @ num @ ws2) = Inr (base @ ''rc'' @ num, True))
    \<and> (lower l = ''dev'' \<longrightarrow>
         tag_to_pep440 (ws1 @ pre @ ''v'' @ base @ ''-'' @ l @ dot @ num @ ws2) = Inr (base @ ''.dev'' @ num, True))
    \<and> (lower l = ''post'' \<longrightarrow>
         tag_to_pep440 (ws1 @ pre @ ''v'' @ base @ ''-'' @ l @ dot @ num @ ws2) = Inr (base @ ''.post'' @ num, True))"
proof -
  note plain = tag_to_pep440_plain[OF assms(1-4)]
  have labelled: "tag_to_pep440 (ws1 @ pre @ ''v'' @ base @ ''-'' @ l @ dot @ num @ ws2) =
     (if lower l \<in> {''alpha'', ''a''} then Inr (base @ ''a'' @ num, True)
      else if lower l \<in> {''beta'', ''b''} then Inr (base @ ''b'' @ num, True)
      else if lower l = ''rc'' then Inr (base @ ''rc'' @ num, True)
      else if lower l \<in> {''pre'', ''preview''} then Inr (base @ ''rc'' @ num, True)
      else if lower l = ''dev'' then Inr (base @ ''.dev'' @ num, True)
      else Inr (base @ ''.post'' @ num, True))"
    if "lower l \<in> set LABELS"
    using tag_to_pep440_labelled[OF assms that] .
  have a: "lower l \<in> {''alpha'', ''a''} \<longrightarrow>
         tag_to_pep440 (ws1 @ pre @ ''v'' @ base @ ''-'' @ l @ dot @ num @ ws2) = Inr (base @ ''a'' @ num, True)"
    using labelled by (auto simp: LABELS_def)
  have b: "lower l \<in> {''beta'', ''b''} \<longrightarrow>
         tag_to_pep440 (ws1 @ pre @ ''v'' @ base @ ''-'' @ l @ dot @ num @ ws2) = Inr (base @ ''b'' @ num, True)"
    using labelled by (auto simp: LABELS_def)
  have c: "lower l = ''rc'' \<longrightarrow>
         tag_to_pep440 (ws1 @ pre @ ''v'' @ base @ ''-'' @ l @ dot @ num @ ws2) = Inr (base @ ''rc'' @ num, True)"
    using labelled by (auto simp: LABELS_def)
  have d: "lower l \<in> {''pre'', ''preview''} \<longrightarrow>
         tag_to_pep440 (ws1 @ pre @ ''v'' @ base @ ''-'' @ l @ dot @ num @ ws2) = Inr (base @ ''rc'' @ num, True)"
    using labelled by (auto simp: LABELS_def)
  have e: "lower l = ''dev'' \<longrightarrow>
         tag_to_pep440 (ws1 @ pre @ ''v'' @ base @ ''-'' @ l @ dot @ num @ ws2) = Inr (base @ ''.dev'' @ num, True)"
    using labelled by (auto simp: LABELS_def)
  have f: "lower l = ''post'' \<longrightarrow>
         tag_to_pep440 (ws1 @ pre @ ''v'' @ base @ ''-'' @ l @ dot @ num @ ws2) = Inr (base @ ''.post'' @ num, True)"
    using labelled by (auto simp: LABELS_def)
  from plain a b c d e f show ?thesis by blast
qed

theorem tag_to_pep440_maps_accepted_tags_witness:
  "digits_separated_by_dots ''1.2.3'' \<and> is_digits ''5'' \<and> lower ''Post'' = ''post''
   \<and> tag_to_pep440 ''refs/tags/v1.2.3'' = Inr (''1.2.3'', False)
   \<and> tag_to_pep440 ''refs/tags/v1.2.3-Post.5'' = Inr (''1.2.3.post5'', True)"
proof -
  have h: "list_all is_space []" "''refs/tags/'' = [] \<or> ''refs/tags/'' = ''refs/tags/''"
    "digits_separated_by_dots ''1.2.3''" "is_digits ''5''" "''.'' = [] \<or> ''.'' = ''.''"
    "lower ''Post'' = ''post''"
    by code_simp+
  show ?thesis
    using tag_to_pep440_maps_accepted_tags [OF h(1) h(1) h(2) h(3) h(4) h(5), of "''Post''"] h
    by simp
qed

text \<open>
  C7 (as stated): the tag \<open>'' v1.2.3''\<close> does not start with the letter v, and the
  mapper accepts it, because it trims the tag first.
\<close>

theorem tag_with_leading_space_accepted:
  "\<not> startswith '' v1.2.3'' ''v'' \<and> \<not> startswith '' v1.2.3'' ''refs/tags/''
   \<and> tag_to_pep440 '' v1.2.3'' = Inr (''1.2.3'', False)"
  by code_simp

text \<open>
  C7 (amended): let the body of a tag be the tag after its surrounding white space and
  one leading \<^verbatim>\<open>refs/tags/\<close> are removed. If the body does not start with the
  letter v followed by at least one character, or what follows the v has no hyphen and is
  not digits separated by dots, or it has a hyphen and the base before the first hyphen is
  not digits separated by dots, or the suffix after it is not a supported label followed
  by an optional dot and digits, then the mapper raises \<^verbatim>\<open>VersionError\<close>; and
  whenever the mapper raises, \<^verbatim>\<open>main\<close> raises the same error and leaves the metadata
  file, the environment log and both output streams as they were. The tags 1.2.3, v,
  v1.2.3-xyz.1 and va.b.c are rejected.
\<close>

theorem tag_to_pep440_rejects:
  "(\<not> startswith (tag_body tag0) ''v'' \<or> length (tag_body tag0) < 2
      \<longrightarrow> tag_to_pep440 tag0 = Inl (VersionError TagMustStartWithV))
   \<and> (tag_body tag0 = ''v'' @ raw \<and> raw \<noteq> [] \<and> CHR ''-'' \<notin> set raw \<and> \<not> digits_separated_by_dots raw
      \<longrightarrow> tag_to_pep440 tag0 = Inl (VersionError ReleaseTagMalformed))
   \<and> (tag_body tag0 = ''v'' @ base @ ''-'' @ suffix \<and> CHR ''-'' \<notin> set base \<and> \<not> digits_separated_by_dots base
      \<longrightarrow> tag_to_pep440 tag0 = Inl (VersionError PrereleaseBaseMalformed))
   \<and> (tag_body tag0 = ''v'' @ base @ ''-'' @ suffix \<and> digits_separated_by_dots base \<and> \<not> supported_suffix suffix
      \<longrightarrow> tag_to_pep440 tag0 = Inl (VersionError UnsupportedSuffix))
   \<and> (tag_to_pep440 (arg_tag args) = Inl e \<longrightarrow> main linesep args wl = (wl, Inl e))
   \<and> tag_to_pep440 ''1.2.3'' = Inl (VersionError TagMustStartWithV)
   \<and> tag_to_pep440 ''v'' = Inl (VersionError TagMustStartWithV)
   \<and> tag_to_pep440 ''v1.2.3-xyz.1'' = Inl (VersionError UnsupportedSuffix)
   \<and> tag_to_pep440 ''va.b.c'' = Inl (VersionError ReleaseTagMalformed)"
proof (intro conjI impI)
  assume "\<not> startswith (tag_body tag0) ''v'' \<or> length (tag_body tag0) < 2"
  then show "tag_to_pep440 tag0 = Inl (VersionError TagMustStartWithV)"
    by (rule tag_to_pep440_no_v)
next
  assume h: "tag_body tag0 = ''v'' @ raw \<and> raw \<noteq> [] \<and> CHR ''-'' \<notin> set raw \<and> \<not> digits_separated_by_dots raw"
  then have "tag_body tag0 = CHR ''v'' # raw" by simp
  from tag_to_pep440_release[OF this] h
  show "tag_to_pep440 tag0 = Inl (VersionError ReleaseTagMalformed)" by simp
next
  assume h: "tag_body tag0 = ''v'' @ base @ ''-'' @ suffix \<and> CHR ''-'' \<notin> set base \<and> \<not> digits_separated_by_dots base"
  then have b: "tag_body tag0 = CHR ''v'' # (base @ ''-'' @ suffix)" by simp
  have d: "CHR ''-'' \<in> set (base @ ''-'' @ suffix)" by simp
  from h have nb: "CHR ''-'' \<notin> set base" by simp
  show "tag_to_pep440 tag0 = Inl (VersionError PrereleaseBaseMalformed)"
    unfolding tag_to_pep440_prerelease[OF b d] Let_def parts_general[OF nb] using h by simp
next
  assume h: "tag_body tag0 = ''v'' @ base @ ''-'' @ suffix \<and> digits_separated_by_dots base \<and> \<not> supported_suffix suffix"
  then have b: "tag_body tag0 = CHR ''v'' # (base @ ''-'' @ suffix)" by simp
  have d: "CHR ''-'' \<in> set (base @ ''-'' @ suffix)" by simp
  from h have db: "digits_separated_by_dots base" by simp
  from h have "suffix_fullmatch suffix = None" using supported_suffix_iff[of suffix] by blast
  then show "tag_to_pep440 tag0 = Inl (VersionError UnsupportedSuffix)"
    unfolding tag_to_pep440_prerelease[OF b d] Let_def prerelease_parts[OF db] using db by simp
next
  assume "tag_to_pep440 (arg_tag args) = Inl e"
  then show "main linesep args wl = (wl, Inl e)" by (simp add: main_def)
qed (rule tag_to_pep440_examples)+

theorem tag_to_pep440_rejects_witness:
  "\<not> startswith (tag_body ''1.2.3'') ''v''
   \<and> tag_body ''va.b.c'' = ''v'' @ ''a.b.c'' \<and> \<not> digits_separated_by_dots ''a.b.c''
   \<and> tag_body ''v1.2.3-xyz.1'' = ''v'' @ ''1.2.3'' @ ''-'' @ ''xyz.1'' \<and> \<not> supported_suffix ''xyz.1''
   \<and> main [LF] \<lparr>arg_tag = ''1.2.3'', arg_check = False, arg_set_github_env = True\<rparr>
        \<lparr>pyproject = ''[project]'', github_env = Some [], stdout = [], stderr = []\<rparr>
      = (\<lparr>pyproject = ''[project]'', github_env = Some [], stdout = [], stderr = []\<rparr>,
         Inl (VersionError TagMustStartWithV))"
proof -
  have a: "\<not> startswith (tag_body ''1.2.3'') ''v''" by code_simp
  have b: "tag_body ''va.b.c'' = ''v'' @ ''a.b.c''" "\<not> digits_separated_by_dots ''a.b.c''" by code_simp+
  have c: "tag_body ''v1.2.3-xyz.1'' = ''v'' @ ''1.2.3'' @ ''-'' @ ''xyz.1''" "\<not> supported_suffix ''xyz.1''"
    by code_simp+
  have t: "tag_to_pep440 ''1.2.3'' = Inl (VersionError TagMustStartWithV)"
    using tag_to_pep440_rejects [where ?tag0.0 = "''1.2.3''"] a by blast
  have "main [LF] \<lparr>arg_tag = ''1.2.3'', arg_check = False, arg_set_github_env = True\<rparr>
        \<lparr>pyproject = ''[project]'', github_env = Some [], stdout = [], stderr = []\<rparr>
      = (\<lparr>pyproject = ''[project]'', github_env = Some [], stdout = [], stderr = []\<rparr>,
         Inl (VersionError TagMustStartWithV))"
    using tag_to_pep440_rejects [where args = "\<lparr>arg_tag = ''1.2.3'', arg_check = False, arg_set_github_env = True\<rparr>"
        and e = "VersionError TagMustStartWithV" and linesep = "[LF]"
        and wl = "\<lparr>pyproject = ''[project]'', github_env = Some [], stdout = [], stderr = []\<rparr>"] t
    by simp
  with a b c show ?thesis by simp
qed

subsection \<open>Rewriting the metadata file\<close>

text \<open>
  What the function does apart from the translation of line ends: the text that is
  written differs from the text that was read in the quoted value of one version line
  only. Where nothing is translated, for a file without carriage returns on a system
  whose line separator is \<^verbatim>\<open>\n\<close>, the file itself changes in that value only;
  and a call that returns \<^verbatim>\<open>False\<close> leaves the file as it was.
\<close>

lemma concat_split_lines: "concat (split_lines acc s) = acc @ s"
  by (induction acc s rule: split_lines.induct) auto

lemma concat_splitlines_keepends: "concat (splitlines_keepends s) = s"
  by (simp add: splitlines_keepends_def concat_split_lines)

lemma universal_newlines_id: "CR \<notin> set s \<Longrightarrow> universal_newlines s = s"
  by (induction s rule: universal_newlines.induct) auto

lemma write_text_LF: "write_text [LF] t = t"
  by (induction t) (auto simp: write_text_def)

lemma startswith_split: "startswith s p \<Longrightarrow> s = p @ drop (length p) s"
  by (metis append_take_drop_id startswith_def)

lemma version_line_match_parts:
  assumes "version_line_match l = Some (prefix, v, suffix)"
  shows "l = prefix @ [DQUOTE] @ v @ [DQUOTE] @ suffix"
proof -
  let ?r1 = "dropWhile is_space l"
  let ?r2 = "drop (length ''version'') ?r1"
  let ?r3 = "dropWhile is_space ?r2"
  let ?r4 = "drop 1 ?r3"
  let ?r5 = "dropWhile is_space ?r4"
  let ?r6 = "drop 1 ?r5"
  let ?r7 = "dropWhile (\<lambda>c. c \<noteq> DQUOTE) ?r6"
  from assms have s1: "startswith ?r1 ''version''" and s3: "startswith ?r3 ''=''"
    and s5: "startswith ?r5 [DQUOTE]" and r7: "?r7 \<noteq> []"
    and res: "prefix = takeWhile is_space l @ ''version'' @ takeWhile is_space ?r2 @ ''='' @ takeWhile is_space ?r4"
       "v = takeWhile (\<lambda>c. c \<noteq> DQUOTE) ?r6" "suffix = drop 1 ?r7"
    unfolding version_line_match_def Let_def by (auto split: if_splits)
  have "hd ?r7 = DQUOTE" using r7 hd_dropWhile[of "\<lambda>c. c \<noteq> DQUOTE" ?r6] by auto
  then have e7: "?r7 = [DQUOTE] @ drop 1 ?r7" using r7 by (cases ?r7) auto
  have e6: "?r6 = takeWhile (\<lambda>c. c \<noteq> DQUOTE) ?r6 @ ?r7" by simp
  have e5: "?r5 = [DQUOTE] @ ?r6" using startswith_split[OF s5] by simp
  have e4: "?r4 = takeWhile is_space ?r4 @ ?r5" by simp
  have e3: "?r3 = ''='' @ ?r4" using startswith_split[OF s3] by simp
  have e2: "?r2 = takeWhile is_space ?r2 @ ?r3" by simp
  have e1: "?r1 = ''version'' @ ?r2" using startswith_split[OF s1] by simp
  have e0: "l = takeWhile is_space l @ ?r1" by simp
  have "l = takeWhile is_space l @ ''version'' @ takeWhile is_space ?r2 @ ''='' @ takeWhile is_space ?r4
            @ [DQUOTE] @ takeWhile (\<lambda>c. c \<noteq> DQUOTE) ?r6 @ [DQUOTE] @ drop 1 ?r7"
    by (metis e0 e1 e2 e3 e4 e5 e6 e7)
  then show ?thesis unfolding res by simp
qed

lemma rstrip_crlf_split: "rstrip_crlf line @ drop (length (rstrip_crlf line)) line = line"
proof -
  let ?P = "\<lambda>c. c = CR \<or> c = LF"
  have "rev line = takeWhile ?P (rev line) @ dropWhile ?P (rev line)" by simp
  then have "line = rev (dropWhile ?P (rev line)) @ rev (takeWhile ?P (rev line))"
    by (metis rev_append rev_rev_ident)
  then have "line = rstrip_crlf line @ rev (takeWhile ?P (rev line))"
    by (simp add: rstrip_crlf_def)
  then show ?thesis by (metis append_eq_conv_conj)
qed

lemma update_lines_changed:
  assumes "update_lines nv ip ls = Inr (Some ls')"
  shows "\<exists>before line after prefix v suffix ending.
           ls = before @ line # after
         \<and> line = prefix @ [DQUOTE] @ v @ [DQUOTE] @ suffix @ ending
         \<and> version_line_match (rstrip_crlf line) = Some (prefix, v, suffix)
         \<and> v \<noteq> nv
         \<and> ls' = before @ (prefix @ [DQUOTE] @ nv @ [DQUOTE] @ suffix @ ending) # after"
  using assms
proof (induction ls arbitrary: ip ls')
  case Nil
  then show ?case by simp
next
  case (Cons line rest)
  let ?goal = "\<lambda>ls ls'. \<exists>before line after prefix v suffix ending.
           ls = before @ line # after
         \<and> line = prefix @ [DQUOTE] @ v @ [DQUOTE] @ suffix @ ending
         \<and> version_line_match (rstrip_crlf line) = Some (prefix, v, suffix)
         \<and> v \<noteq> nv
         \<and> ls' = before @ (prefix @ [DQUOTE] @ nv @ [DQUOTE] @ suffix @ ending) # after"
  have skip: "?goal (line # rest) ls'"
    if "map_sum id (map_option ((#) line)) (update_lines nv ip' rest) = Inr (Some ls')" for ip'
  proof -
    from that obtain r' where r': "update_lines nv ip' rest = Inr (Some r')" "ls' = line # r'"
      by (cases "update_lines nv ip' rest") (auto simp: map_option_case split: option.splits)
    from Cons.IH[OF r'(1)] obtain before l after prefix v suffix ending where
      "rest = before @ l # after" "l = prefix @ [DQUOTE] @ v @ [DQUOTE] @ suffix @ ending"
      "version_line_match (rstrip_crlf l) = Some (prefix, v, suffix)" "v \<noteq> nv"
      "r' = before @ (prefix @ [DQUOTE] @ nv @ [DQUOTE] @ suffix @ ending) # after"
      by blast
    then have "line # rest = (line # before) @ l # after
       \<and> l = prefix @ [DQUOTE] @ v @ [DQUOTE] @ suffix @ ending
       \<and> version_line_match (rstrip_crlf l) = Some (prefix, v, suffix) \<and> v \<noteq> nv
       \<and> ls' = (line # before) @ (prefix @ [DQUOTE] @ nv @ [DQUOTE] @ suffix @ ending) # after"
      using r'(2) by simp
    then show ?thesis by blast
  qed
  show ?case
  proof (cases "section_match line")
    case (Some name)
    then show ?thesis using Cons.prems skip by simp
  next
    case None
    show ?thesis
    proof (cases ip)
      case False
      then show ?thesis using None Cons.prems skip by simp
    next
      case True
      show ?thesis
      proof (cases "version_line_match (rstrip_crlf line)")
        case n: None
        then show ?thesis using None True Cons.prems skip by simp
      next
        case (Some m)
        obtain prefix v suffix where m: "m = (prefix, v, suffix)" by (cases m) auto
        let ?ending = "drop (length (rstrip_crlf line)) line"
        from Cons.prems None True Some m
        have v: "v \<noteq> nv" and ls': "ls' = (prefix @ [DQUOTE] @ nv @ [DQUOTE] @ suffix @ ?ending) # rest"
          by (auto simp: Let_def split: if_splits)
        have "rstrip_crlf line = prefix @ [DQUOTE] @ v @ [DQUOTE] @ suffix"
          using version_line_match_parts Some m by simp
        then have "line = prefix @ [DQUOTE] @ v @ [DQUOTE] @ suffix @ ?ending"
          using rstrip_crlf_split[of line] by simp
        then have "line # rest = [] @ line # rest
          \<and> line = prefix @ [DQUOTE] @ v @ [DQUOTE] @ suffix @ ?ending
          \<and> version_line_match (rstrip_crlf line) = Some (prefix, v, suffix) \<and> v \<noteq> nv
          \<and> ls' = [] @ (prefix @ [DQUOTE] @ nv @ [DQUOTE] @ suffix @ ?ending) # rest"
          using v ls' Some m by simp
        then show ?thesis by blast
      qed
    qed
  qed
qed

lemma update_pyproject_version_text:
  assumes "update_pyproject_version linesep content nv = Inr (True, content')"
  shows "\<exists>a v b. read_text content = a @ [DQUOTE] @ v @ [DQUOTE] @ b \<and> v \<noteq> nv
           \<and> content' = write_text linesep (a @ [DQUOTE] @ nv @ [DQUOTE] @ b)"
proof -
  from assms obtain ls' where u: "update_lines nv False (splitlines_keepends (read_text content)) = Inr (Some ls')"
    and c: "content' = write_text linesep (concat ls')"
    by (auto simp: update_pyproject_version_def split: sum.splits option.splits)
  from update_lines_changed[OF u] obtain before line after prefix v suffix ending where
    p: "splitlines_keepends (read_text content) = before @ line # after"
      "line = prefix @ [DQUOTE] @ v @ [DQUOTE] @ suffix @ ending" "v \<noteq> nv"
      "ls' = before @ (prefix @ [DQUOTE] @ nv @ [DQUOTE] @ suffix @ ending) # after"
    by blast
  have "read_text content = concat (before @ line # after)"
    using concat_splitlines_keepends[of "read_text content"] p(1) by simp
  then have r: "read_text content = (concat before @ prefix) @ [DQUOTE] @ v @ [DQUOTE] @ (suffix @ ending @ concat after)"
    using p(2) by simp
  have "concat ls' = (concat before @ prefix) @ [DQUOTE] @ nv @ [DQUOTE] @ (suffix @ ending @ concat after)"
    using p(4) by simp
  then have "content' = write_text linesep ((concat before @ prefix) @ [DQUOTE] @ nv @ [DQUOTE] @ (suffix @ ending @ concat after))"
    using c by simp
  with r p(3) have "read_text content = (concat before @ prefix) @ [DQUOTE] @ v @ [DQUOTE] @ (suffix @ ending @ concat after)
      \<and> v \<noteq> nv
      \<and> content' = write_text linesep ((concat before @ prefix) @ [DQUOTE] @ nv @ [DQUOTE] @ (suffix @ ending @ concat after))"
    by simp
  then show ?thesis by (intro exI)
qed

lemma update_pyproject_version_posix_lf:
  assumes "CR \<notin> set content" "update_pyproject_version [LF] content nv = Inr (True, content')"
  shows "\<exists>a v b. content = a @ [DQUOTE] @ v @ [DQUOTE] @ b \<and> v \<noteq> nv
           \<and> content' = a @ [DQUOTE] @ nv @ [DQUOTE] @ b"
  using update_pyproject_version_text[OF assms(2)] assms(1)
  by (simp add: read_text_def universal_newlines_id write_text_LF)

lemma update_pyproject_version_unchanged:
  "update_pyproject_version linesep content nv = Inr (False, content') \<Longrightarrow> content' = content"
  by (auto simp: update_pyproject_version_def split: sum.splits option.splits)

text \<open>
  C4: a metadata file whose lines end in \<^verbatim>\<open>\r\n\<close>, updated from 1.0.0 to 1.0.1 on
  a system whose line separator is \<^verbatim>\<open>\n\<close>: the function reports a change, and
  the file it writes has \<^verbatim>\<open>\n\<close> at the end of every line, the version line and the
  two lines around it. On a system whose line separator is \<^verbatim>\<open>\r\n\<close> the same
  happens to a file whose lines end in \<^verbatim>\<open>\n\<close>. The claim has the terminator of the
  version line kept and every other line kept byte for byte.
\<close>

theorem update_pyproject_version_translates_newlines:
  "update_pyproject_version [LF]
     (''[project]'' @ [CR, LF] @ ''version = '' @ [DQUOTE] @ ''1.0.0'' @ [DQUOTE] @ [CR, LF] @ ''name = x'' @ [CR, LF])
     ''1.0.1''
   = Inr (True,
      ''[project]'' @ [LF] @ ''version = '' @ [DQUOTE] @ ''1.0.1'' @ [DQUOTE] @ [LF] @ ''name = x'' @ [LF])
   \<and> update_pyproject_version [CR, LF]
     (''[project]'' @ [LF] @ ''version = '' @ [DQUOTE] @ ''1.0.0'' @ [DQUOTE] @ [LF] @ ''name = x'' @ [LF])
     ''1.0.1''
   = Inr (True,
      ''[project]'' @ [CR, LF] @ ''version = '' @ [DQUOTE] @ ''1.0.1'' @ [DQUOTE] @ [CR, LF] @ ''name = x'' @ [CR, LF])"
  by code_simp

theorem update_pyproject_version_translates_newlines_witness:
  "update_pyproject_version [LF]
     (''[project]'' @ [CR, LF] @ ''version = '' @ [DQUOTE] @ ''1.0.0'' @ [DQUOTE] @ [CR, LF] @ ''name = x'' @ [CR, LF])
     ''1.0.1''
   \<noteq> Inl (VersionError VersionLineNotFound)"
  using update_pyproject_version_translates_newlines by simp

end
